theory Spec2Isabelle
  imports Main "HOL-Library.Word" "HOL-Library.Sublist"
begin

unbundle bit_operations_syntax

section \<open>Bootloader update and persistent parameters (AP\_HAL\_ChibiOS/Util.cpp)\<close>

text \<open>
  The development embeds \<^verbatim>\<open>Util::flash_bootloader\<close>,
  \<^verbatim>\<open>Util::get_persistent_params\<close>, \<^verbatim>\<open>Util::load_persistent_params\<close> and
  \<^verbatim>\<open>Util::apply_persistent_params\<close>. Machine integers are words, C characters and
  flash bytes are 8-bit words, and every call that reaches the flash driver, the scheduler,
  the console or the ROMFS allocator is recorded, in program order, in a trace.
\<close>

subsection \<open>Bytes and C strings\<close>

type_synonym u8 = "8 word"
type_synonym u32 = "32 word"

text \<open>\<^verbatim>\<open>static const char *persistent_header = "{{PERSISTENT_START_V1}}\n";\<close>\<close>

definition persistent_header :: "u8 list" where
  "persistent_header = map of_char (''{{PERSISTENT_START_V1}}'' @ [CHR 0x0A])"

text \<open>The characters a C string function sees: everything before the first NUL.\<close>

definition c_str :: "u8 list \<Rightarrow> u8 list" where
  "c_str s = takeWhile (\<lambda>c. c \<noteq> 0) s"

text \<open>\<^verbatim>\<open>strcmp(a, b) != 0\<close>\<close>

definition strcmp_differs :: "u8 list \<Rightarrow> u8 list \<Rightarrow> bool" where
  "strcmp_differs a b = (c_str a \<noteq> c_str b)"

text \<open>
  \<^verbatim>\<open>memmem(haystack, n, needle, m)\<close>: the offset of the first occurrence of the needle.
\<close>

fun memmem :: "u8 list \<Rightarrow> u8 list \<Rightarrow> nat option" where
  "memmem [] needle = (if needle = [] then Some 0 else None)"
| "memmem (x # xs) needle =
     (if prefix needle (x # xs) then Some 0 else map_option Suc (memmem xs needle))"

text \<open>
  The tokens that repeated \<^verbatim>\<open>strtok_r(.., "\n", &saveptr)\<close> calls return: the maximal
  non-empty runs of characters other than the newline. The first argument is the token
  being collected.
\<close>

fun strtok_r :: "u8 list \<Rightarrow> u8 list \<Rightarrow> u8 list list" where
  "strtok_r cur [] = (if cur = [] then [] else [cur])"
| "strtok_r cur (c # cs) =
     (if c = 10 then (if cur = [] then strtok_r [] cs else cur # strtok_r [] cs)
      else strtok_r (cur @ [c]) cs)"

subsection \<open>ExpandingString\<close>

text \<open>
  Modelled from the spec: the class \<^verbatim>\<open>ExpandingString\<close> (AP\_Common) is not part of the
  sources at hand. The spec speaks of a text buffer whose growth can fail at any point.
  The buffer is a byte list; an append that would take it beyond the heap limit leaves
  the text as it is and sets the failure flag, and nothing is appended after a failure.
\<close>

record ExpandingString =
  buf :: "u8 list"
  allocation_failed :: bool

definition es_new :: ExpandingString where
  "es_new = \<lparr>buf = [], allocation_failed = False\<rparr>"

definition get_length :: "ExpandingString \<Rightarrow> nat" where
  "get_length str = length (buf str)"

definition has_failed_allocation :: "ExpandingString \<Rightarrow> bool" where
  "has_failed_allocation str = allocation_failed str"

definition es_append :: "nat \<Rightarrow> u8 list \<Rightarrow> ExpandingString \<Rightarrow> ExpandingString" where
  "es_append limit s str =
     (if allocation_failed str then str
      else if length (buf str) + length s \<le> limit then str\<lparr>buf := buf str @ s\<rparr>
      else str\<lparr>allocation_failed := True\<rparr>)"

text \<open>\<^verbatim>\<open>str.printf("%s", text)\<close>\<close>

definition es_printf :: "nat \<Rightarrow> u8 list \<Rightarrow> ExpandingString \<Rightarrow> ExpandingString" where
  "es_printf limit s str = es_append limit s str"

subsection \<open>The board: build options, flash geometry, ROMFS, device behaviour\<close>

datatype FlashBootloader = OK | NO_CHANGE | FAIL | NOT_AVAILABLE

datatype debug_msg =
    FailedToFind
  | UpToDate
  | Erasing
  | EraseFailed u8
  | Flashing u32
  | FlashFailedAttempt nat nat
  | FlashOK
  | FlashFailedAfter nat

datatype event =
    EvExpectDelay nat
  | EvDelay nat
  | EvDebug debug_msg
  | EvErase u8 bool
  | EvWrite u32 "u8 list" bool
  | EvKeepUnlocked bool
  | EvFree

text \<open>
  What the function reads from its surroundings. \<open>romfs_bootloader\<close> is the outcome of
  \<^verbatim>\<open>AP_ROMFS::find_decompress("bootloader.bin", fw_size)\<close>: the memory at the returned
  pointer, by offset, and the size. \<open>erase_result\<close> and \<open>write_result\<close> give the outcome
  of the n-th erase and the n-th write call the driver receives (a device stub).
  \<open>ins_persistent_params\<close> is the sequence of texts the inertial sensor singleton prints
  (\<open>None\<close>: there is no singleton).
\<close>

record env =
  romfs_bootloader :: "((nat \<Rightarrow> u8) \<times> u32) option"
  getpageaddr :: "u8 \<Rightarrow> u32"
  getpagesize :: "u8 \<Rightarrow> u32"
  erase_result :: "nat \<Rightarrow> bool"
  write_result :: "nat \<Rightarrow> bool"
  HAL_ENABLE_SAVE_PERSISTENT_PARAMS :: bool
  HAL_INS_TEMPERATURE_CAL_ENABLE :: bool
  ins_persistent_params :: "u8 list list option"
  heap_limit :: nat

record world =
  mem :: "u32 \<Rightarrow> u8"
  unlocked :: bool
  trace :: "event list"

definition emit :: "event \<Rightarrow> world \<Rightarrow> world" where
  "emit e w = w\<lparr>trace := trace w @ [e]\<rparr>"

definition expect_delay_ms :: "nat \<Rightarrow> world \<Rightarrow> world" where
  "expect_delay_ms ms w = emit (EvExpectDelay ms) w"

definition delay :: "nat \<Rightarrow> world \<Rightarrow> world" where
  "delay ms w = emit (EvDelay ms) w"

definition Debug :: "debug_msg \<Rightarrow> world \<Rightarrow> world" where
  "Debug m w = emit (EvDebug m) w"

definition romfs_free :: "world \<Rightarrow> world" where
  "romfs_free w = emit EvFree w"

fun is_erase :: "event \<Rightarrow> bool" where
  "is_erase (EvErase p ok) = True"
| "is_erase e = False"

fun is_write :: "event \<Rightarrow> bool" where
  "is_write (EvWrite a d ok) = True"
| "is_write e = False"

fun is_gate :: "event \<Rightarrow> bool" where
  "is_gate (EvKeepUnlocked b) = True"
| "is_gate e = False"

definition erase_calls :: "event list \<Rightarrow> nat" where
  "erase_calls tr = length (filter is_erase tr)"

definition write_calls :: "event list \<Rightarrow> nat" where
  "write_calls tr = length (filter is_write tr)"

definition free_calls :: "event list \<Rightarrow> nat" where
  "free_calls tr = length (filter (\<lambda>e. e = EvFree) tr)"

text \<open>Memory reads: n bytes of RAM from a pointer, n bytes of flash from an address.\<close>

definition read_ram :: "(nat \<Rightarrow> u8) \<Rightarrow> nat \<Rightarrow> u8 list" where
  "read_ram p n = map p [0..<n]"

definition read_flash :: "(u32 \<Rightarrow> u8) \<Rightarrow> u32 \<Rightarrow> nat \<Rightarrow> u8 list" where
  "read_flash m a n = map (\<lambda>i. m (a + of_nat i)) [0..<n]"

text \<open>
  Modelled from the spec: the flash driver (hwdef/common/flash.c) is not part of the
  sources at hand. The spec gives \<^verbatim>\<open>erase_page(i) -> bool\<close>,
  \<^verbatim>\<open>write(address, bytes, len) -> bool\<close> and \<^verbatim>\<open>set_write_unlocked(bool)\<close>. A call
  that succeeds changes the flash contents (an erased byte reads 0xFF); a call that
  fails leaves them as they were.
\<close>

definition erasepage :: "env \<Rightarrow> u8 \<Rightarrow> world \<Rightarrow> bool \<times> world" where
  "erasepage env page w =
     (let ok = erase_result env (erase_calls (trace w));
          base = getpageaddr env page;
          w' = (if ok
                then w\<lparr>mem := (\<lambda>a. if a - base < getpagesize env page then 255 else mem w a)\<rparr>
                else w)
      in (ok, emit (EvErase page ok) w'))"

definition flash_write :: "env \<Rightarrow> u32 \<Rightarrow> u8 list \<Rightarrow> world \<Rightarrow> bool \<times> world" where
  "flash_write env addr data w =
     (let ok = write_result env (write_calls (trace w));
          w' = (if ok
                then w\<lparr>mem := (\<lambda>a. if unat (a - addr) < length data
                                    then data ! unat (a - addr) else mem w a)\<rparr>
                else w)
      in (ok, emit (EvWrite addr data ok) w'))"

definition keep_unlocked :: "bool \<Rightarrow> world \<Rightarrow> world" where
  "keep_unlocked b w = emit (EvKeepUnlocked b) (w\<lparr>unlocked := b\<rparr>)"

subsection \<open>get\_persistent\_params and load\_persistent\_params\<close>

text \<open>
  \<^verbatim>\<open>ins->get_persistent_params(str)\<close> (AP\_InertialSensor, not in the sources): it prints
  its texts into the string one after the other.
\<close>

definition ins_get_persistent_params :: "nat \<Rightarrow> u8 list list \<Rightarrow> ExpandingString \<Rightarrow> ExpandingString" where
  "ins_get_persistent_params limit texts str = foldl (\<lambda>s t. es_printf limit t s) str texts"

text \<open>
  \<^verbatim>\<open>while (!str.has_failed_allocation() && str.get_length() % 32 != 0) str.append(" ", 1);\<close>
\<close>

function pad_to_32 :: "nat \<Rightarrow> ExpandingString \<Rightarrow> ExpandingString" where
  "pad_to_32 limit str =
     (if \<not> has_failed_allocation str \<and> get_length str mod 32 \<noteq> 0
      then pad_to_32 limit (es_append limit [32] str)
      else str)"
  by pat_completeness auto
termination
proof (relation "measure (\<lambda>(limit, str).
          if allocation_failed str then 0 else (32 - length (buf str) mod 32) mod 32)")
  show "wf (measure (\<lambda>(limit, str).
          if allocation_failed str then 0 else (32 - length (buf str) mod 32) mod 32))"
    by simp
next
  fix limit :: nat and str :: ExpandingString
  assume a: "\<not> has_failed_allocation str \<and> get_length str mod 32 \<noteq> 0"
  define n where "n = length (buf str)"
  have n: "n mod 32 \<noteq> 0" and nf: "\<not> allocation_failed str"
    using a by (simp_all add: n_def get_length_def has_failed_allocation_def)
  have lt: "n mod 32 < 32"
    by simp
  have "(32 - Suc n mod 32) mod 32 < (32 - n mod 32) mod 32"
  proof (cases "n mod 32 = 31")
    case True
    then show ?thesis by (simp add: mod_Suc)
  next
    case False
    with n lt have "Suc n mod 32 = Suc (n mod 32)" and "Suc (n mod 32) < 32"
      by (simp_all add: mod_Suc)
    with n show ?thesis by simp
  qed
  then show "((limit, es_append limit [32] str), (limit, str))
      \<in> measure (\<lambda>(limit, str).
          if allocation_failed str then 0 else (32 - length (buf str) mod 32) mod 32)"
    using n nf by (simp add: es_append_def n_def)
qed

declare pad_to_32.simps [simp del]

definition get_persistent_params :: "env \<Rightarrow> ExpandingString \<Rightarrow> bool \<times> ExpandingString" where
  "get_persistent_params env str =
     (let str1 = es_printf (heap_limit env) persistent_header str;
          str2 = (if HAL_INS_TEMPERATURE_CAL_ENABLE env
                  then (case ins_persistent_params env of
                          Some texts \<Rightarrow> ins_get_persistent_params (heap_limit env) texts str1
                        | None \<Rightarrow> str1)
                  else str1)
      in if has_failed_allocation str2 \<or> get_length str2 \<le> length persistent_header
         then (False, str2)
         else (let str3 = pad_to_32 (heap_limit env) str2
               in (\<not> has_failed_allocation str3, str3)))"

definition load_persistent_params :: "env \<Rightarrow> world \<Rightarrow> ExpandingString \<Rightarrow> bool \<times> ExpandingString" where
  "load_persistent_params env w str =
     (let addr = getpageaddr env 0;
          size = getpagesize env 0;
          page = read_flash (mem w) addr (unat size)
      in case memmem page persistent_header of
           Some s \<Rightarrow>
             (let str' = es_append (heap_limit env) (drop s page) str
              in (\<not> has_failed_allocation str', str'))
         | None \<Rightarrow> (False, str))"

subsection \<open>flash\_bootloader\<close>

text \<open>
  The up-to-date decision (source lines 217 to 240). \<open>fw\<close> is the memory at the image
  pointer and \<open>fw_size\<close> the size rounded up to a multiple of 32. The flash is read in
  place, so the world is handed back as it came. \<^verbatim>\<open>space_available\<close> is an
  \<^verbatim>\<open>int32_t\<close> compared with the \<^verbatim>\<open>uint32_t\<close> that \<^verbatim>\<open>get_length()\<close> returns: by the
  usual arithmetic conversions the comparison is made on unsigned 32-bit values.
\<close>

definition uptodate_decision ::
  "env \<Rightarrow> (nat \<Rightarrow> u8) \<Rightarrow> u32 \<Rightarrow> world \<Rightarrow> (bool \<times> ExpandingString) \<times> world" where
  "uptodate_decision env fw fw_size w =
     (let addr = getpageaddr env 0;
          uptodate = (read_ram fw (unat fw_size) = read_flash (mem w) addr (unat fw_size))
      in if HAL_ENABLE_SAVE_PERSISTENT_PARAMS env
         then (let space_available = getpagesize env 0 - fw_size;
                   got = get_persistent_params env es_new;
                   persistent_params = snd got;
                   old = load_persistent_params env w es_new
               in if fst got
                     \<and> get_length persistent_params \<le> unat space_available
                     \<and> (\<not> fst old \<or> strcmp_differs (buf persistent_params) (buf (snd old)))
                  then ((False, persistent_params), w)
                  else ((uptodate, persistent_params), w))
         else ((uptodate, es_new), w))"

text \<open>
  The erase loop (source lines 251 to 265). \<^verbatim>\<open>erased_size\<close> is a \<^verbatim>\<open>uint32_t\<close> and
  \<^verbatim>\<open>erase_page\<close> a \<^verbatim>\<open>uint8_t\<close>: both wrap around, and the loop need not end, so it
  is a partial function. The result is \<open>Some r\<close> when the loop returned \<open>r\<close> from
  \<^verbatim>\<open>flash_bootloader\<close>, and \<open>None\<close> when it ran to its end.
\<close>

partial_function (option) erase_loop ::
  "env \<Rightarrow> u32 \<Rightarrow> u32 \<Rightarrow> u8 \<Rightarrow> world \<Rightarrow> (FlashBootloader option \<times> world) option" where
  "erase_loop env fw_size erased_size erase_page w =
     (if erased_size < fw_size
      then (let page_size = getpagesize env erase_page
            in if page_size = 0
               then Some (Some FAIL, romfs_free w)
               else (let r = erasepage env erase_page (expect_delay_ms 1000 w)
                     in if \<not> fst r
                        then Some (Some FAIL, romfs_free (Debug (EraseFailed erase_page) (snd r)))
                        else erase_loop env fw_size (erased_size + page_size) (erase_page + 1) (snd r)))
      else Some (None, w))"

declare erase_loop.simps [code]

definition max_attempts :: nat where
  "max_attempts = 10"

text \<open>
  The write loop (source lines 270 to 290), \<open>i\<close> counting the attempts made. The result
  is \<open>Some OK\<close> when the loop returned from \<^verbatim>\<open>flash_bootloader\<close>, and \<open>None\<close> when
  all attempts failed. The result of the second write, of the parameters, is dropped.
\<close>

function write_loop ::
  "env \<Rightarrow> u32 \<Rightarrow> u8 list \<Rightarrow> ExpandingString \<Rightarrow> nat \<Rightarrow> world \<Rightarrow> FlashBootloader option \<times> world" where
  "write_loop env addr fw_data persistent_params i w =
     (if i < max_attempts
      then (let r = flash_write env addr fw_data (expect_delay_ms 1000 w)
            in if \<not> fst r
               then write_loop env addr fw_data persistent_params (i + 1)
                      (delay 100 (Debug (FlashFailedAttempt (i + 1) max_attempts) (snd r)))
               else (let w3 = Debug FlashOK (snd r);
                         w4 = (if HAL_ENABLE_SAVE_PERSISTENT_PARAMS env
                                  \<and> get_length persistent_params \<noteq> 0
                               then (let ofs = getpagesize env 0
                                                 - of_nat (get_length persistent_params)
                                     in snd (flash_write env (addr + ofs)
                                               (buf persistent_params) w3))
                               else w3)
                     in (Some OK, romfs_free (keep_unlocked False w4))))
      else (None, w))"
  by pat_completeness auto
termination
  by (relation "measure (\<lambda>(env, addr, fw_data, persistent_params, i, w). max_attempts - i)") auto

declare write_loop.simps [simp del]

text \<open>Source lines 267 to 295: the write phase, from the message to the last return.\<close>

definition write_phase ::
  "env \<Rightarrow> u32 \<Rightarrow> u8 list \<Rightarrow> ExpandingString \<Rightarrow> world \<Rightarrow> FlashBootloader \<times> world" where
  "write_phase env addr fw_data persistent_params w =
     (let r = write_loop env addr fw_data persistent_params 0
                (keep_unlocked True (Debug (Flashing addr) w))
      in case fst r of
           Some res \<Rightarrow> (res, snd r)
         | None \<Rightarrow>
             (FAIL, romfs_free (Debug (FlashFailedAfter max_attempts)
                                  (keep_unlocked False (snd r)))))"

text \<open>\<^verbatim>\<open>fw_size = (fw_size + 31U) & ~31U;\<close>\<close>

definition align32 :: "u32 \<Rightarrow> u32" where
  "align32 n = (n + 31) AND NOT 31"

text \<open>
  \<^verbatim>\<open>Util::flash_bootloader\<close>. \<open>None\<close>: the erase loop does not end. The macro
  \<^verbatim>\<open>EXPECT_DELAY_MS(11000)\<close> is recorded as the one call it makes where it stands; what
  it does when the function is left is not part of the model.
\<close>

definition flash_bootloader :: "env \<Rightarrow> world \<Rightarrow> (FlashBootloader \<times> world) option" where
  "flash_bootloader env w =
     (let w0 = expect_delay_ms 11000 w
      in case romfs_bootloader env of
           None \<Rightarrow> Some (NOT_AVAILABLE, Debug FailedToFind w0)
         | Some (fw, sz) \<Rightarrow>
             (let fw_size = align32 sz;
                  addr = getpageaddr env 0;
                  d = uptodate_decision env fw fw_size w0;
                  uptodate = fst (fst d);
                  persistent_params = snd (fst d);
                  w1 = snd d
              in if uptodate
                 then Some (NO_CHANGE, romfs_free (Debug UpToDate w1))
                 else (case erase_loop env fw_size 0 0 (Debug Erasing w1) of
                         None \<Rightarrow> None
                       | Some (Some res, w2) \<Rightarrow> Some (res, w2)
                       | Some (None, w2) \<Rightarrow>
                           Some (write_phase env addr (read_ram fw (unat fw_size))
                                   persistent_params w2))))"

subsection \<open>apply\_persistent\_params\<close>

text \<open>
  Modelled from the spec: \<^verbatim>\<open>AP_Param::set_default_by_name\<close> and
  \<^verbatim>\<open>AP_Param::invalidate_count\<close> (AP\_Param) are not part of the sources at hand. The
  spec gives \<^verbatim>\<open>set_default_if_unset(name, value) -> bool\<close>: the store sets the value only
  if no explicit value has been set for that name yet. The result tells whether it did.
\<close>

record 'v param_store =
  explicit_value :: "u8 list \<rightharpoonup> 'v"
  default_value :: "u8 list \<rightharpoonup> 'v"
  count_valid :: bool

definition set_default_by_name :: "u8 list \<Rightarrow> 'v \<Rightarrow> 'v param_store \<Rightarrow> bool \<times> 'v param_store" where
  "set_default_by_name name v st =
     (case explicit_value st name of
        None \<Rightarrow> (True, st\<lparr>default_value := (default_value st)(name \<mapsto> v)\<rparr>)
      | Some x \<Rightarrow> (False, st))"

definition invalidate_count :: "'v param_store \<Rightarrow> 'v param_store" where
  "invalidate_count st = st\<lparr>count_valid := False\<rparr>"

text \<open>The value a parameter reads as: the explicit one if there is one, else the default.\<close>

definition param_value :: "'v param_store \<Rightarrow> u8 list \<Rightarrow> 'v option" where
  "param_value st name =
     (case explicit_value st name of Some x \<Rightarrow> Some x | None \<Rightarrow> default_value st name)"

text \<open>
  The body of the token loop (source lines 440 to 446), for the token \<open>p\<close>; \<open>atof\<close> is
  the C library's conversion, a parameter here. The character 61 is the equals sign.
\<close>

definition apply_record ::
  "(u8 list \<Rightarrow> 'v) \<Rightarrow> 'v param_store \<times> nat \<Rightarrow> u8 list \<Rightarrow> 'v param_store \<times> nat" where
  "apply_record atof sc p =
     (if 61 \<in> set p
      then (let name = takeWhile (\<lambda>c. c \<noteq> 61) p;
                val = atof (tl (dropWhile (\<lambda>c. c \<noteq> 61) p));
                r = set_default_by_name name val (fst sc)
            in (snd r, if fst r then snd sc + 1 else snd sc))
      else sc)"

datatype gcs_text = LoadedPersistentParameters nat

text \<open>
  \<^verbatim>\<open>Util::apply_persistent_params\<close>: the store after the call and the texts sent.
\<close>

definition apply_persistent_params ::
  "env \<Rightarrow> (u8 list \<Rightarrow> 'v) \<Rightarrow> world \<Rightarrow> 'v param_store \<Rightarrow> 'v param_store \<times> gcs_text list" where
  "apply_persistent_params env atof w st =
     (let l = load_persistent_params env w es_new
      in if \<not> fst l then (st, [])
         else (let s = drop (length persistent_header) (c_str (buf (snd l)));
                   r = foldl (apply_record atof) (st, 0) (strtok_r [] s)
               in if snd r \<noteq> 0
                  then (invalidate_count (fst r), [LoadedPersistentParameters (snd r)])
                  else (fst r, [])))"

subsection \<open>Vocabulary for traces and device scenarios\<close>

text \<open>
  The accumulated \<^verbatim>\<open>erased_size\<close> after the pages 0 to k - 1 have been erased, in the
  loop's own 32-bit arithmetic and with its 8-bit page counter.
\<close>

fun erased_size_after :: "env \<Rightarrow> nat \<Rightarrow> u32" where
  "erased_size_after env 0 = 0"
| "erased_size_after env (Suc k) = erased_size_after env k + getpagesize env (of_nat k)"

text \<open>
  The first n passes of the erase loop all go through: before each of them the image
  is not covered yet, the page has a size, and the device erases it.
\<close>

fun erase_passes :: "env \<Rightarrow> u32 \<Rightarrow> nat \<Rightarrow> bool" where
  "erase_passes env fw_size 0 = True"
| "erase_passes env fw_size (Suc k) =
     (erase_passes env fw_size k
      \<and> erased_size_after env k < fw_size
      \<and> getpagesize env (of_nat k) \<noteq> 0
      \<and> erase_result env k)"

text \<open>The events of n successful passes of the erase loop.\<close>

definition erase_events :: "nat \<Rightarrow> event list" where
  "erase_events n = concat (map (\<lambda>k. [EvExpectDelay 1000, EvErase (of_nat k) True]) [0..<n])"

text \<open>The events of the pass that ends the erase loop with a failure at page n.\<close>

definition erase_failure :: "env \<Rightarrow> nat \<Rightarrow> event list" where
  "erase_failure env n =
     (if getpagesize env (of_nat n) = 0 then [EvFree]
      else [EvExpectDelay 1000, EvErase (of_nat n) False, EvDebug (EraseFailed (of_nat n)), EvFree])"

text \<open>The events of j failed write attempts, the first of them attempt number i + 1.\<close>

definition failed_attempts :: "u32 \<Rightarrow> u8 list \<Rightarrow> nat \<Rightarrow> nat \<Rightarrow> event list" where
  "failed_attempts addr fw_data i j =
     concat (map (\<lambda>k. [EvExpectDelay 1000, EvWrite addr fw_data False,
                        EvDebug (FlashFailedAttempt (k + 1) max_attempts), EvDelay 100])
                 [i..<i + j])"

text \<open>The write of the parameters after a successful write of the image, if there is one.\<close>

definition params_write :: "env \<Rightarrow> u32 \<Rightarrow> ExpandingString \<Rightarrow> bool \<Rightarrow> event list" where
  "params_write env addr persistent_params ok =
     (if HAL_ENABLE_SAVE_PERSISTENT_PARAMS env \<and> get_length persistent_params \<noteq> 0
      then [EvWrite (addr + (getpagesize env 0 - of_nat (get_length persistent_params)))
              (buf persistent_params) ok]
      else [])"

text \<open>What the inertial sensor contributes to the parameters, if anything.\<close>

definition persistable_texts :: "env \<Rightarrow> u8 list list" where
  "persistable_texts env =
     (if HAL_INS_TEMPERATURE_CAL_ENABLE env
      then (case ins_persistent_params env of Some texts \<Rightarrow> texts | None \<Rightarrow> [])
      else [])"

subsection \<open>A board and a flash to run the functions on\<close>

text \<open>
  A board with one flash page of 128 bytes at 0x08000000, a bootloader image of 32 bytes
  in ROMFS, one persistent parameter, and a device on which every call succeeds.
\<close>

definition demo_image :: "nat \<Rightarrow> u8" where
  "demo_image i = 7"

definition board :: env where
  "board = \<lparr>romfs_bootloader = Some (demo_image, 32),
            getpageaddr = (\<lambda>p. 0x08000000),
            getpagesize = (\<lambda>p. if p = 0 then 128 else 0),
            erase_result = (\<lambda>n. True),
            write_result = (\<lambda>n. True),
            HAL_ENABLE_SAVE_PERSISTENT_PARAMS = True,
            HAL_INS_TEMPERATURE_CAL_ENABLE = True,
            ins_persistent_params = Some [map of_char ''X=1'' @ [10]],
            heap_limit = 1024\<rparr>"

text \<open>The same board with a page 0 of 16 bytes, too small for the image, and no page 1.\<close>

definition small_page :: env where
  "small_page = board\<lparr>getpagesize := (\<lambda>p. if p = 0 then 16 else 0)\<rparr>"

text \<open>The same board without an inertial sensor singleton: nothing to persist.\<close>

definition no_sensor :: env where
  "no_sensor = board\<lparr>ins_persistent_params := None\<rparr>"

text \<open>
  The same board with two pages of 16 bytes, so that the image of 32 bytes takes both,
  and a flash that holds the image from the base of page 0 on.
\<close>

definition two_pages :: env where
  "two_pages = board\<lparr>getpageaddr := (\<lambda>p. 0x08000000 + 16 * ucast p),
                      getpagesize := (\<lambda>p. if p = 0 \<or> p = 1 then 16 else 0)\<rparr>"

definition resident :: world where
  "resident = \<lparr>mem = (\<lambda>a. 7), unlocked = False, trace = []\<rparr>"

text \<open>The serialized parameters of the board: the header, the line, four spaces.\<close>

definition demo_params :: "u8 list" where
  "demo_params = persistent_header @ map of_char ''X=1'' @ [10, 32, 32, 32, 32]"

text \<open>An erased flash, and the flash as an update of the board leaves it.\<close>

definition blank :: world where
  "blank = \<lparr>mem = (\<lambda>a. 255), unlocked = False, trace = []\<rparr>"

definition flashed :: world where
  "flashed = \<lparr>mem = (\<lambda>a. if a - 0x08000000 < 32 then 7
                       else if a - 0x08000060 < 32 then demo_params ! unat (a - 0x08000060)
                       else 255),
              unlocked = False, trace = []\<rparr>"

text \<open>The result and the trace of a run, for statements about concrete runs.\<close>

definition outcome :: "(FlashBootloader \<times> world) option \<Rightarrow> FlashBootloader option" where
  "outcome run = map_option fst run"

definition final_trace :: "(FlashBootloader \<times> world) option \<Rightarrow> event list" where
  "final_trace run = (case run of Some (r, w) \<Rightarrow> trace w | None \<Rightarrow> [])"

text \<open>
  Two parameter stores whose values are the texts themselves (\<open>atof\<close> is the identity):
  one in which the user has set the parameter X to 9, and an empty one.
\<close>

definition demo_store :: "(u8 list) param_store" where
  "demo_store = \<lparr>explicit_value = [[88] \<mapsto> [57]], default_value = Map.empty,
                 count_valid = True\<rparr>"

definition empty_store :: "(u8 list) param_store" where
  "empty_store = \<lparr>explicit_value = Map.empty, default_value = Map.empty, count_valid = True\<rparr>"

section \<open>Properties\<close>

subsection \<open>Serialized parameters\<close>

lemma length_persistent_header: "length persistent_header = 24"
  by (simp add: persistent_header_def)

lemma es_append_failed_keeps: "allocation_failed str \<Longrightarrow> allocation_failed (es_append l s str)"
  by (simp add: es_append_def)

lemma es_append_prefix: "prefix (buf str) (buf (es_append l s str))"
  by (simp add: es_append_def)

lemma pad_to_32_failed_or_aligned:
  "has_failed_allocation (pad_to_32 l str) \<or> get_length (pad_to_32 l str) mod 32 = 0"
proof (induction l str rule: pad_to_32.induct)
  case (1 limit str)
  show ?case
  proof (cases "\<not> has_failed_allocation str \<and> get_length str mod 32 \<noteq> 0")
    case True
    then have "pad_to_32 limit str = pad_to_32 limit (es_append limit [32] str)"
      by (subst pad_to_32.simps) simp
    with "1.IH" True show ?thesis by simp
  next
    case False
    then have "pad_to_32 limit str = str"
      by (subst pad_to_32.simps) auto
    with False show ?thesis by auto
  qed
qed

lemma pad_to_32_prefix: "prefix (buf str) (buf (pad_to_32 l str))"
proof (induction l str rule: pad_to_32.induct)
  case (1 limit str)
  show ?case
  proof (cases "\<not> has_failed_allocation str \<and> get_length str mod 32 \<noteq> 0")
    case True
    then have "pad_to_32 limit str = pad_to_32 limit (es_append limit [32] str)"
      by (subst pad_to_32.simps) simp
    moreover have "prefix (buf (es_append limit [32] str)) (buf (pad_to_32 limit (es_append limit [32] str)))"
      using "1.IH" True by simp
    ultimately show ?thesis
      using es_append_prefix [of str limit "[32]"] prefix_order.order_trans by fastforce
  next
    case False
    then show ?thesis by (subst pad_to_32.simps) auto
  qed
qed

lemma ins_get_prefix: "prefix (buf str) (buf (ins_get_persistent_params l ts str))"
proof (induction ts arbitrary: str)
  case Nil
  then show ?case by (simp add: ins_get_persistent_params_def)
next
  case (Cons t ts)
  have "prefix (buf (es_printf l t str)) (buf (ins_get_persistent_params l ts (es_printf l t str)))"
    by (rule Cons.IH)
  moreover have "prefix (buf str) (buf (es_printf l t str))"
    by (simp add: es_printf_def es_append_prefix)
  ultimately have "prefix (buf str) (buf (ins_get_persistent_params l ts (es_printf l t str)))"
    by (rule prefix_order.order_trans [rotated])
  then show ?case
    by (simp add: ins_get_persistent_params_def)
qed

lemma ins_get_no_text:
  "concat ts = [] \<Longrightarrow> \<not> allocation_failed str \<Longrightarrow> length (buf str) \<le> l \<Longrightarrow>
   ins_get_persistent_params l ts str = str"
  by (induction ts arbitrary: str) (simp_all add: ins_get_persistent_params_def es_printf_def es_append_def)

lemma get_persistent_params_alt:
  "get_persistent_params env str =
     (let str2 = ins_get_persistent_params (heap_limit env) (persistable_texts env)
                   (es_printf (heap_limit env) persistent_header str)
      in if has_failed_allocation str2 \<or> get_length str2 \<le> length persistent_header
         then (False, str2)
         else (\<not> has_failed_allocation (pad_to_32 (heap_limit env) str2),
               pad_to_32 (heap_limit env) str2))"
  by (simp add: get_persistent_params_def persistable_texts_def Let_def
      ins_get_persistent_params_def split: option.splits)

lemma header_printed:
  "es_printf l persistent_header es_new =
     (if 24 \<le> l then \<lparr>buf = persistent_header, allocation_failed = False\<rparr>
      else \<lparr>buf = [], allocation_failed = True\<rparr>)"
  by (simp add: es_printf_def es_append_def es_new_def length_persistent_header)

lemma ins_get_failed_empty:
  "allocation_failed str \<Longrightarrow> ins_get_persistent_params l ts str = str"
  by (induction ts arbitrary: str)
     (simp_all add: ins_get_persistent_params_def es_printf_def es_append_def)

lemma serialized_empty_or_header:
  "buf (snd (get_persistent_params env es_new)) = []
   \<or> prefix persistent_header (buf (snd (get_persistent_params env es_new)))"
proof -
  let ?l = "heap_limit env"
  let ?s1 = "es_printf ?l persistent_header es_new"
  let ?s2 = "ins_get_persistent_params ?l (persistable_texts env) ?s1"
  have s2: "buf ?s2 = [] \<or> prefix persistent_header (buf ?s2)"
  proof (cases "allocation_failed ?s1")
    case True
    then have "?s2 = ?s1" by (rule ins_get_failed_empty)
    with True header_printed [of ?l] show ?thesis by (auto split: if_splits)
  next
    case False
    with header_printed [of ?l] have "buf ?s1 = persistent_header" by (auto split: if_splits)
    with ins_get_prefix [of ?s1 ?l "persistable_texts env"] show ?thesis by simp
  qed
  show ?thesis
  proof (cases "has_failed_allocation ?s2 \<or> get_length ?s2 \<le> length persistent_header")
    case True
    then have "snd (get_persistent_params env es_new) = ?s2"
      by (simp add: get_persistent_params_alt Let_def)
    with s2 show ?thesis by simp
  next
    case False
    then have e: "snd (get_persistent_params env es_new) = pad_to_32 ?l ?s2"
      by (simp add: get_persistent_params_alt Let_def)
    from False have "buf ?s2 \<noteq> []" by (auto simp: get_length_def)
    with s2 have "prefix persistent_header (buf ?s2)" by simp
    then have "prefix persistent_header (buf (pad_to_32 ?l ?s2))"
      using pad_to_32_prefix [of ?s2 ?l] by (rule prefix_order.order_trans)
    with e show ?thesis by simp
  qed
qed

subsection \<open>Traces of the device calls\<close>

lemma emit_simps [simp]:
  "trace (emit e w) = trace w @ [e]" "mem (emit e w) = mem w" "unlocked (emit e w) = unlocked w"
  by (simp_all add: emit_def)

lemma hooks_simps [simp]:
  "trace (expect_delay_ms n w) = trace w @ [EvExpectDelay n]"
  "mem (expect_delay_ms n w) = mem w" "unlocked (expect_delay_ms n w) = unlocked w"
  "trace (delay n w) = trace w @ [EvDelay n]"
  "mem (delay n w) = mem w" "unlocked (delay n w) = unlocked w"
  "trace (Debug m w) = trace w @ [EvDebug m]"
  "mem (Debug m w) = mem w" "unlocked (Debug m w) = unlocked w"
  "trace (romfs_free w) = trace w @ [EvFree]"
  "mem (romfs_free w) = mem w" "unlocked (romfs_free w) = unlocked w"
  by (simp_all add: expect_delay_ms_def delay_def Debug_def romfs_free_def)

lemma keep_unlocked_simps [simp]:
  "trace (keep_unlocked b w) = trace w @ [EvKeepUnlocked b]"
  "mem (keep_unlocked b w) = mem w" "unlocked (keep_unlocked b w) = b"
  by (simp_all add: keep_unlocked_def)

lemma erasepage_simps [simp]:
  "fst (erasepage env p w) = erase_result env (erase_calls (trace w))"
  "trace (snd (erasepage env p w)) = trace w @ [EvErase p (erase_result env (erase_calls (trace w)))]"
  "unlocked (snd (erasepage env p w)) = unlocked w"
  by (simp_all add: erasepage_def Let_def)

lemma flash_write_simps [simp]:
  "fst (flash_write env a d w) = write_result env (write_calls (trace w))"
  "trace (snd (flash_write env a d w)) = trace w @ [EvWrite a d (write_result env (write_calls (trace w)))]"
  "unlocked (snd (flash_write env a d w)) = unlocked w"
  by (simp_all add: flash_write_def Let_def)

lemma flash_write_failed: 
  "\<not> write_result env (write_calls (trace w)) \<Longrightarrow>
   snd (flash_write env a d w) = emit (EvWrite a d False) w"
  by (simp add: flash_write_def Let_def)

lemma calls_append [simp]:
  "erase_calls (xs @ ys) = erase_calls xs + erase_calls ys"
  "write_calls (xs @ ys) = write_calls xs + write_calls ys"
  "free_calls (xs @ ys) = free_calls xs + free_calls ys"
  by (simp_all add: erase_calls_def write_calls_def free_calls_def)

lemma calls_Cons [simp]:
  "erase_calls (e # es) = (if is_erase e then 1 else 0) + erase_calls es"
  "write_calls (e # es) = (if is_write e then 1 else 0) + write_calls es"
  "free_calls (e # es) = (if e = EvFree then 1 else 0) + free_calls es"
  "erase_calls [] = 0" "write_calls [] = 0" "free_calls [] = 0"
  by (simp_all add: erase_calls_def write_calls_def free_calls_def)

lemma erase_loop_effect:
  assumes "erase_loop env fw_size erased_size erase_page w = Some y"
  shows "(fst y = None \<or> fst y = Some FAIL)
       \<and> unlocked (snd y) = unlocked w
       \<and> filter is_write (trace (snd y)) = filter is_write (trace w)
       \<and> filter is_gate (trace (snd y)) = filter is_gate (trace w)
       \<and> free_calls (trace (snd y)) = free_calls (trace w) + (if fst y = None then 0 else 1)"
  using assms
proof (induct rule: erase_loop.raw_induct [rotated 1, consumes 1])
  case (1 erase_loop' env fw_size erased_size erase_page w y)
  note IH = 1(1) and body = 1(2)
  show ?case
  proof (cases "erased_size < fw_size")
    case False
    with body show ?thesis by auto
  next
    case lt: True
    show ?thesis
    proof (cases "getpagesize env erase_page = 0")
      case True
      with lt body show ?thesis by auto
    next
      case nz: False
      show ?thesis
      proof (cases "erase_result env (erase_calls (trace (expect_delay_ms 1000 w)))")
        case False
        with lt nz body show ?thesis by (auto simp: Let_def)
      next
        case True
        with lt nz body
        have "erase_loop' env fw_size (erased_size + getpagesize env erase_page) (erase_page + 1)
                (snd (erasepage env erase_page (expect_delay_ms 1000 w))) = Some y"
          by (simp add: Let_def)
        from IH [OF this] show ?thesis by simp
      qed
    qed
  qed
qed

lemma failed_attempts_0 [simp]: "failed_attempts a d i 0 = []"
  by (simp add: failed_attempts_def)

lemma failed_attempts_Suc:
  "failed_attempts a d i (Suc j) = failed_attempts a d i j
     @ [EvExpectDelay 1000, EvWrite a d False,
        EvDebug (FlashFailedAttempt (i + j + 1) max_attempts), EvDelay 100]"
  by (simp add: failed_attempts_def)

lemma failed_attempts_calls [simp]:
  "write_calls (failed_attempts a d i j) = j"
  "erase_calls (failed_attempts a d i j) = 0"
  "free_calls (failed_attempts a d i j) = 0"
  by (induction j) (simp_all add: failed_attempts_Suc)

lemma write_loop_failures:
  assumes "write_calls (trace w) = b" and "i + j \<le> max_attempts"
    and "\<forall>k<j. \<not> write_result env (b + k)"
  shows "\<exists>w'. write_loop env a d pp i w = write_loop env a d pp (i + j) w'
             \<and> trace w' = trace w @ failed_attempts a d i j
             \<and> unlocked w' = unlocked w \<and> mem w' = mem w"
  using assms(2,3)
proof (induction j)
  case 0
  show ?case by (rule exI [of _ w]) simp
next
  case (Suc j)
  then obtain w' where run: "write_loop env a d pp i w = write_loop env a d pp (i + j) w'"
    and tr: "trace w' = trace w @ failed_attempts a d i j"
    and ul: "unlocked w' = unlocked w" and m: "mem w' = mem w"
    by auto
  let ?r = "flash_write env a d (expect_delay_ms 1000 w')"
  let ?w'' = "delay 100 (Debug (FlashFailedAttempt (i + j + 1) max_attempts) (snd ?r))"
  from Suc.prems have lt: "i + j < max_attempts" and fails: "\<not> write_result env (b + j)"
    by simp_all
  have f: "\<not> fst ?r"
    using fails assms(1) tr by simp
  have "write_loop env a d pp (i + j) w' = write_loop env a d pp (i + Suc j) ?w''"
    using lt f by (subst write_loop.simps) (simp add: Let_def)
  moreover have "trace ?w'' = trace w @ failed_attempts a d i (Suc j)"
    using fails assms(1) tr by (simp add: failed_attempts_Suc)
  moreover have "unlocked ?w'' = unlocked w"
    using ul by simp
  moreover have "mem ?w'' = mem w"
    using m f by (simp add: flash_write_def Let_def)
  ultimately show ?case
    using run by (intro exI [of _ ?w'']) simp
qed

lemma params_write_calls [simp]:
  "erase_calls (params_write env a pp ok) = 0"
  "free_calls (params_write env a pp ok) = 0"
  by (simp_all add: params_write_def)

lemma write_loop_success:
  assumes "write_result env (write_calls (trace w))" and "i < max_attempts"
  shows "\<exists>w'. write_loop env a d pp i w = (Some OK, w')
             \<and> trace w' = trace w @ [EvExpectDelay 1000, EvWrite a d True, EvDebug FlashOK]
                  @ params_write env a pp (write_result env (write_calls (trace w) + 1))
                  @ [EvKeepUnlocked False, EvFree]
             \<and> \<not> unlocked w'"
  using assms
  by (subst write_loop.simps) (simp add: Let_def params_write_def)

lemma write_phase_ok:
  assumes b: "write_calls (trace w) = b" and j: "j < max_attempts"
    and fails: "\<forall>k<j. \<not> write_result env (b + k)" and ok: "write_result env (b + j)"
  shows "\<exists>w'. write_phase env a d pp w = (OK, w')
             \<and> trace w' = trace w @ [EvDebug (Flashing a), EvKeepUnlocked True]
                  @ failed_attempts a d 0 j
                  @ [EvExpectDelay 1000, EvWrite a d True, EvDebug FlashOK]
                  @ params_write env a pp (write_result env (b + j + 1))
                  @ [EvKeepUnlocked False, EvFree]
             \<and> \<not> unlocked w'"
proof -
  let ?w0 = "keep_unlocked True (Debug (Flashing a) w)"
  have b0: "write_calls (trace ?w0) = b" using b by simp
  from write_loop_failures [OF b0 _ fails, of 0 a d pp] j
  obtain w1 where run: "write_loop env a d pp 0 ?w0 = write_loop env a d pp j w1"
    and tr: "trace w1 = trace ?w0 @ failed_attempts a d 0 j"
    by auto
  have "write_result env (write_calls (trace w1))"
    using ok tr b by simp
  from write_loop_success [OF this j, of a d pp]
  obtain w' where fin: "write_loop env a d pp j w1 = (Some OK, w')"
    and tr': "trace w' = trace w1 @ [EvExpectDelay 1000, EvWrite a d True, EvDebug FlashOK]
                  @ params_write env a pp (write_result env (write_calls (trace w1) + 1))
                  @ [EvKeepUnlocked False, EvFree]"
    and ul: "\<not> unlocked w'"
    by blast
  have "write_phase env a d pp w = (OK, w')"
    using run fin by (simp add: write_phase_def Let_def)
  moreover have "write_calls (trace w1) = b + j"
    using tr b by simp
  ultimately show ?thesis
    using tr tr' ul by (intro exI [of _ w']) simp
qed

lemma write_phase_fail:
  assumes b: "write_calls (trace w) = b"
    and fails: "\<forall>k<max_attempts. \<not> write_result env (b + k)"
  shows "\<exists>w'. write_phase env a d pp w = (FAIL, w')
             \<and> trace w' = trace w @ [EvDebug (Flashing a), EvKeepUnlocked True]
                  @ failed_attempts a d 0 max_attempts
                  @ [EvKeepUnlocked False, EvDebug (FlashFailedAfter max_attempts), EvFree]
             \<and> \<not> unlocked w'"
proof -
  let ?w0 = "keep_unlocked True (Debug (Flashing a) w)"
  have b0: "write_calls (trace ?w0) = b" using b by simp
  from write_loop_failures [OF b0 _ fails, of 0 a d pp]
  obtain w1 where run: "write_loop env a d pp 0 ?w0 = write_loop env a d pp max_attempts w1"
    and tr: "trace w1 = trace ?w0 @ failed_attempts a d 0 max_attempts"
    by auto
  have "write_loop env a d pp max_attempts w1 = (None, w1)"
    by (subst write_loop.simps) simp
  with run have "write_phase env a d pp w
      = (FAIL, romfs_free (Debug (FlashFailedAfter max_attempts) (keep_unlocked False w1)))"
    by (simp add: write_phase_def Let_def)
  then show ?thesis
    using tr by simp
qed

lemma erase_events_0 [simp]: "erase_events 0 = []"
  by (simp add: erase_events_def)

lemma erase_events_Suc:
  "erase_events (Suc n) = erase_events n @ [EvExpectDelay 1000, EvErase (of_nat n) True]"
  by (simp add: erase_events_def)

lemma erase_events_calls [simp]:
  "erase_calls (erase_events n) = n"
  "write_calls (erase_events n) = 0"
  "free_calls (erase_events n) = 0"
  by (induction n) (simp_all add: erase_events_Suc)

lemma erase_loop_passes:
  assumes "erase_calls (trace w) = 0" and "erase_passes env fw_size n"
  shows "\<exists>w'. erase_loop env fw_size 0 0 w
                = erase_loop env fw_size (erased_size_after env n) (of_nat n) w'
             \<and> trace w' = trace w @ erase_events n \<and> unlocked w' = unlocked w"
  using assms(2)
proof (induction n)
  case 0
  show ?case by (rule exI [of _ w]) simp
next
  case (Suc n)
  then obtain w' where run: "erase_loop env fw_size 0 0 w
        = erase_loop env fw_size (erased_size_after env n) (of_nat n) w'"
    and tr: "trace w' = trace w @ erase_events n" and ul: "unlocked w' = unlocked w"
    by auto
  let ?r = "erasepage env (of_nat n) (expect_delay_ms 1000 w')"
  from Suc.prems have lt: "erased_size_after env n < fw_size"
    and nz: "getpagesize env (of_nat n) \<noteq> 0" and ok: "erase_result env n"
    by simp_all
  have f: "fst ?r"
    using ok tr assms(1) by simp
  have "erase_loop env fw_size (erased_size_after env n) (of_nat n) w'
      = erase_loop env fw_size (erased_size_after env (Suc n)) (of_nat (Suc n)) (snd ?r)"
    using lt nz f by (subst erase_loop.simps) (simp add: Let_def add.commute)
  moreover have "trace (snd ?r) = trace w @ erase_events (Suc n)"
    using ok tr assms(1) by (simp add: erase_events_Suc)
  moreover have "unlocked (snd ?r) = unlocked w"
    using ul by simp
  ultimately show ?case
    using run by (intro exI [of _ "snd ?r"]) simp
qed

lemma erase_phase_ok:
  assumes "erase_calls (trace w) = 0" and "erase_passes env fw_size n"
    and "\<not> erased_size_after env n < fw_size"
  shows "\<exists>w'. erase_loop env fw_size 0 0 w = Some (None, w')
             \<and> trace w' = trace w @ erase_events n \<and> unlocked w' = unlocked w"
proof -
  from erase_loop_passes [OF assms(1,2)]
  obtain w' where run: "erase_loop env fw_size 0 0 w
        = erase_loop env fw_size (erased_size_after env n) (of_nat n) w'"
    and tr: "trace w' = trace w @ erase_events n" and ul: "unlocked w' = unlocked w"
    by auto
  have "erase_loop env fw_size (erased_size_after env n) (of_nat n) w' = Some (None, w')"
    using assms(3) by (subst erase_loop.simps) simp
  with run tr ul show ?thesis by auto
qed

lemma erase_phase_fail:
  assumes "erase_calls (trace w) = 0" and "erase_passes env fw_size n"
    and "erased_size_after env n < fw_size"
    and "getpagesize env (of_nat n) = 0 \<or> \<not> erase_result env n"
  shows "\<exists>w'. erase_loop env fw_size 0 0 w = Some (Some FAIL, w')
             \<and> trace w' = trace w @ erase_events n @ erase_failure env n
             \<and> unlocked w' = unlocked w"
proof -
  from erase_loop_passes [OF assms(1,2)]
  obtain w' where run: "erase_loop env fw_size 0 0 w
        = erase_loop env fw_size (erased_size_after env n) (of_nat n) w'"
    and tr: "trace w' = trace w @ erase_events n" and ul: "unlocked w' = unlocked w"
    by auto
  show ?thesis
  proof (cases "getpagesize env (of_nat n) = 0")
    case True
    then have "erase_loop env fw_size (erased_size_after env n) (of_nat n) w'
        = Some (Some FAIL, romfs_free w')"
      using assms(3) by (subst erase_loop.simps) simp
    with run tr ul True show ?thesis
      by (intro exI [of _ "romfs_free w'"]) (simp add: erase_failure_def)
  next
    case False
    let ?r = "erasepage env (of_nat n) (expect_delay_ms 1000 w')"
    from False assms(4) have bad: "\<not> erase_result env n" by simp
    then have f: "\<not> fst ?r" using tr assms(1) by simp
    have "erase_loop env fw_size (erased_size_after env n) (of_nat n) w'
        = Some (Some FAIL, romfs_free (Debug (EraseFailed (of_nat n)) (snd ?r)))"
      using assms(3) False f by (subst erase_loop.simps) (simp add: Let_def)
    with run tr ul False bad assms(1) show ?thesis
      by (intro exI [of _ "romfs_free (Debug (EraseFailed (of_nat n)) (snd ?r))"])
         (simp add: erase_failure_def)
  qed
qed

lemma decision_world [simp]: "snd (uptodate_decision env fw fw_size w) = w"
  by (simp add: uptodate_decision_def Let_def)

lemma load_persistent_params_mem:
  "mem w' = mem w \<Longrightarrow> load_persistent_params env w' str = load_persistent_params env w str"
  by (simp add: load_persistent_params_def)

lemma decision_mem:
  "mem w' = mem w \<Longrightarrow>
   fst (uptodate_decision env fw fw_size w') = fst (uptodate_decision env fw fw_size w)"
  by (auto simp: uptodate_decision_def Let_def load_persistent_params_mem [of w' w])

lemma decision_params:
  "params_write env a (snd (fst (uptodate_decision env fw fw_size w))) ok
     = params_write env a (snd (get_persistent_params env es_new)) ok"
  by (simp add: uptodate_decision_def Let_def params_write_def)

lemma flash_bootloader_not_available:
  "romfs_bootloader env = None \<Longrightarrow>
   flash_bootloader env w = Some (NOT_AVAILABLE, Debug FailedToFind (expect_delay_ms 11000 w))"
  by (simp add: flash_bootloader_def Let_def)

lemma flash_bootloader_uptodate:
  assumes "romfs_bootloader env = Some (fw, sz)"
    and "fst (fst (uptodate_decision env fw (align32 sz) w))"
  shows "flash_bootloader env w
           = Some (NO_CHANGE, romfs_free (Debug UpToDate (expect_delay_ms 11000 w)))"
proof -
  have "fst (fst (uptodate_decision env fw (align32 sz) (expect_delay_ms 11000 w)))"
    using assms(2) decision_mem [of "expect_delay_ms 11000 w" w env fw "align32 sz"] by simp
  with assms(1) show ?thesis
    by (simp add: flash_bootloader_def Let_def)
qed

lemma flash_bootloader_update:
  assumes "romfs_bootloader env = Some (fw, sz)"
    and "\<not> fst (fst (uptodate_decision env fw (align32 sz) w))"
  shows "flash_bootloader env w
           = (case erase_loop env (align32 sz) 0 0 (Debug Erasing (expect_delay_ms 11000 w)) of
                None \<Rightarrow> None
              | Some (Some res, w2) \<Rightarrow> Some (res, w2)
              | Some (None, w2) \<Rightarrow>
                  Some (write_phase env (getpageaddr env 0) (read_ram fw (unat (align32 sz)))
                          (snd (fst (uptodate_decision env fw (align32 sz) w))) w2))"
proof -
  have d: "fst (uptodate_decision env fw (align32 sz) (expect_delay_ms 11000 w))
         = fst (uptodate_decision env fw (align32 sz) w)"
    by (rule decision_mem) simp
  show ?thesis
    using assms
    by (simp add: flash_bootloader_def Let_def d cong: option.case_cong prod.case_cong)
qed

subsection \<open>Whole runs of flash\_bootloader\<close>

lemma erase_loop_extends:
  assumes "erase_loop env fw_size erased_size erase_page w = Some y"
  shows "\<exists>new. trace (snd y) = trace w @ new
           \<and> (\<forall>e\<in>set new. \<not> is_gate e \<and> \<not> is_write e)
           \<and> free_calls new = (if fst y = None then 0 else 1)"
  using assms
proof (induct rule: erase_loop.raw_induct [rotated 1, consumes 1])
  case (1 erase_loop' env fw_size erased_size erase_page w y)
  note IH = 1(1) and body = 1(2)
  show ?case
  proof (cases "erased_size < fw_size")
    case False
    with body show ?thesis by auto
  next
    case lt: True
    show ?thesis
    proof (cases "getpagesize env erase_page = 0")
      case True
      with lt body show ?thesis by auto
    next
      case nz: False
      let ?r = "erasepage env erase_page (expect_delay_ms 1000 w)"
      show ?thesis
      proof (cases "fst ?r")
        case False
        with lt nz body
        have "y = (Some FAIL, romfs_free (Debug (EraseFailed erase_page) (snd ?r)))"
          by (simp add: Let_def)
        then show ?thesis by simp
      next
        case True
        with lt nz body
        have "erase_loop' env fw_size (erased_size + getpagesize env erase_page) (erase_page + 1)
                (snd ?r) = Some y"
          by (simp add: Let_def)
        from IH [OF this] obtain new where
          "trace (snd y) = trace (snd ?r) @ new"
          "\<forall>e\<in>set new. \<not> is_gate e \<and> \<not> is_write e"
          "free_calls new = (if fst y = None then 0 else 1)"
          by blast
        then show ?thesis
          by (intro exI [of _ "[EvExpectDelay 1000,
                EvErase erase_page (erase_result env (erase_calls (trace (expect_delay_ms 1000 w))))]
                @ new"]) simp
      qed
    qed
  qed
qed

lemma first_success_or_none:
  fixes P :: "nat \<Rightarrow> bool"
  shows "(\<exists>j<n. (\<forall>k<j. \<not> P k) \<and> P j) \<or> (\<forall>k<n. \<not> P k)"
proof (cases "\<exists>k<n. P k")
  case True
  then obtain k where k: "k < n" "P k" by blast
  define j where "j = (LEAST i. P i)"
  have "P j" unfolding j_def using k(2) by (rule LeastI)
  moreover have "j \<le> k" unfolding j_def using k(2) by (rule Least_le)
  moreover have "\<forall>i<j. \<not> P i" unfolding j_def using not_less_Least by blast
  ultimately have "j < n \<and> (\<forall>i<j. \<not> P i) \<and> P j" using k(1) by simp
  then show ?thesis by blast
next
  case False
  then show ?thesis by blast
qed

lemma failed_attempts_no_gate [simp]:
  "e \<in> set (failed_attempts a d i j) \<Longrightarrow> \<not> is_gate e"
  by (induction j) (auto simp: failed_attempts_Suc)

lemma params_write_no_gate [simp]:
  "e \<in> set (params_write env a pp ok) \<Longrightarrow> \<not> is_gate e"
  by (auto simp: params_write_def split: if_splits)

lemma write_phase_any:
  "\<exists>mid post. trace (snd (write_phase env a d pp w))
        = trace w @ [EvDebug (Flashing a), EvKeepUnlocked True] @ mid
            @ [EvKeepUnlocked False] @ post
      \<and> (\<forall>e\<in>set mid. \<not> is_gate e) \<and> (\<exists>e\<in>set mid. is_write e)
      \<and> (\<forall>e\<in>set post. \<not> is_gate e \<and> \<not> is_write e)
      \<and> free_calls mid = 0 \<and> free_calls post = 1
      \<and> erase_calls mid = 0 \<and> erase_calls post = 0
      \<and> \<not> unlocked (snd (write_phase env a d pp w))
      \<and> (fst (write_phase env a d pp w) = OK \<or> fst (write_phase env a d pp w) = FAIL)"
proof -
  define b where "b = write_calls (trace w)"
  have "(\<exists>j<max_attempts. (\<forall>k<j. \<not> write_result env (b + k)) \<and> write_result env (b + j))
      \<or> (\<forall>k<max_attempts. \<not> write_result env (b + k))"
    by (rule first_success_or_none)
  then show ?thesis
  proof
    assume "\<exists>j<max_attempts. (\<forall>k<j. \<not> write_result env (b + k)) \<and> write_result env (b + j)"
    then obtain j where j: "j < max_attempts" "\<forall>k<j. \<not> write_result env (b + k)"
      "write_result env (b + j)" by blast
    let ?mid = "failed_attempts a d 0 j
                  @ [EvExpectDelay 1000, EvWrite a d True, EvDebug FlashOK]
                  @ params_write env a pp (write_result env (b + j + 1))"
    from write_phase_ok [OF b_def [symmetric] j, of a d pp]
    obtain w' where r: "write_phase env a d pp w = (OK, w')"
      and tr: "trace w' = trace w @ [EvDebug (Flashing a), EvKeepUnlocked True]
                  @ failed_attempts a d 0 j
                  @ [EvExpectDelay 1000, EvWrite a d True, EvDebug FlashOK]
                  @ params_write env a pp (write_result env (b + j + 1))
                  @ [EvKeepUnlocked False, EvFree]"
      and ul: "\<not> unlocked w'" by blast
    have 1: "trace w' = trace w @ [EvDebug (Flashing a), EvKeepUnlocked True] @ ?mid
            @ [EvKeepUnlocked False] @ [EvFree]"
      using tr by simp
    have 2: "\<forall>e\<in>set ?mid. \<not> is_gate e"
      by auto
    have 3: "\<exists>e\<in>set ?mid. is_write e"
      by simp
    have 4: "free_calls ?mid = 0"
      by simp
    show ?thesis
      using r 1 2 3 4 ul
      by (intro exI [of _ ?mid] exI [of _ "[EvFree]"]) simp
  next
    assume "\<forall>k<max_attempts. \<not> write_result env (b + k)"
    let ?mid = "failed_attempts a d 0 max_attempts"
    let ?post = "[EvDebug (FlashFailedAfter max_attempts), EvFree]"
    from write_phase_fail [OF b_def [symmetric] \<open>\<forall>k<max_attempts. \<not> write_result env (b + k)\<close>, of a d pp]
    obtain w' where r: "write_phase env a d pp w = (FAIL, w')"
      and tr: "trace w' = trace w @ [EvDebug (Flashing a), EvKeepUnlocked True]
                  @ failed_attempts a d 0 max_attempts
                  @ [EvKeepUnlocked False, EvDebug (FlashFailedAfter max_attempts), EvFree]"
      and ul: "\<not> unlocked w'" by blast
    have 1: "trace w' = trace w @ [EvDebug (Flashing a), EvKeepUnlocked True] @ ?mid
            @ [EvKeepUnlocked False] @ ?post"
      using tr by simp
    have 2: "\<forall>e\<in>set ?mid. \<not> is_gate e"
      by auto
    have 3: "\<exists>e\<in>set ?mid. is_write e"
      by (simp add: failed_attempts_def max_attempts_def upt_rec [of 0])
    show ?thesis
      using r 1 2 3 ul
      by (intro exI [of _ ?mid] exI [of _ ?post]) simp
  qed
qed

lemma flash_bootloader_erased:
  assumes found: "romfs_bootloader env = Some (fw, sz)"
    and needs: "\<not> fst (fst (uptodate_decision env fw (align32 sz) w))"
    and fresh: "trace w = []"
    and passes: "erase_passes env (align32 sz) n"
    and covered: "\<not> erased_size_after env n < align32 sz"
  shows "\<exists>w2. flash_bootloader env w
             = Some (write_phase env (getpageaddr env 0) (read_ram fw (unat (align32 sz)))
                       (snd (fst (uptodate_decision env fw (align32 sz) w))) w2)
           \<and> trace w2 = [EvExpectDelay 11000, EvDebug Erasing] @ erase_events n"
proof -
  let ?w1 = "Debug Erasing (expect_delay_ms 11000 w)"
  have "erase_calls (trace ?w1) = 0" using fresh by simp
  from erase_phase_ok [OF this passes covered]
  obtain w2 where "erase_loop env (align32 sz) 0 0 ?w1 = Some (None, w2)"
    and "trace w2 = trace ?w1 @ erase_events n" by blast
  then show ?thesis
    using fresh by (intro exI [of _ w2]) (simp add: flash_bootloader_update [OF found needs])
qed

lemma flash_bootloader_run_ok:
  assumes found: "romfs_bootloader env = Some (fw, sz)"
    and needs: "\<not> fst (fst (uptodate_decision env fw (align32 sz) w))"
    and fresh: "trace w = []"
    and passes: "erase_passes env (align32 sz) n"
    and covered: "\<not> erased_size_after env n < align32 sz"
    and j: "j < max_attempts" "\<forall>k<j. \<not> write_result env k" "write_result env j"
  shows "\<exists>w'. flash_bootloader env w = Some (OK, w')
           \<and> trace w' = [EvExpectDelay 11000, EvDebug Erasing] @ erase_events n
                @ [EvDebug (Flashing (getpageaddr env 0)), EvKeepUnlocked True]
                @ failed_attempts (getpageaddr env 0) (read_ram fw (unat (align32 sz))) 0 j
                @ [EvExpectDelay 1000,
                   EvWrite (getpageaddr env 0) (read_ram fw (unat (align32 sz))) True,
                   EvDebug FlashOK]
                @ params_write env (getpageaddr env 0) (snd (get_persistent_params env es_new))
                    (write_result env (j + 1))
                @ [EvKeepUnlocked False, EvFree]
           \<and> \<not> unlocked w'"
proof -
  from flash_bootloader_erased [OF found needs fresh passes covered]
  obtain w2 where run: "flash_bootloader env w
             = Some (write_phase env (getpageaddr env 0) (read_ram fw (unat (align32 sz)))
                       (snd (fst (uptodate_decision env fw (align32 sz) w))) w2)"
    and tr: "trace w2 = [EvExpectDelay 11000, EvDebug Erasing] @ erase_events n" by blast
  have b: "write_calls (trace w2) = 0" using tr by simp
  from j have j': "\<forall>k<j. \<not> write_result env (0 + k)" "write_result env (0 + j)" by simp_all
  from write_phase_ok [OF b j(1) j', of "getpageaddr env 0" "read_ram fw (unat (align32 sz))"
      "snd (fst (uptodate_decision env fw (align32 sz) w))"]
  obtain w' where "write_phase env (getpageaddr env 0) (read_ram fw (unat (align32 sz)))
                       (snd (fst (uptodate_decision env fw (align32 sz) w))) w2 = (OK, w')"
    and "trace w' = trace w2 @ [EvDebug (Flashing (getpageaddr env 0)), EvKeepUnlocked True]
                  @ failed_attempts (getpageaddr env 0) (read_ram fw (unat (align32 sz))) 0 j
                  @ [EvExpectDelay 1000,
                     EvWrite (getpageaddr env 0) (read_ram fw (unat (align32 sz))) True,
                     EvDebug FlashOK]
                  @ params_write env (getpageaddr env 0)
                      (snd (fst (uptodate_decision env fw (align32 sz) w)))
                      (write_result env (0 + j + 1))
                  @ [EvKeepUnlocked False, EvFree]"
    and "\<not> unlocked w'" by blast
  then show ?thesis
    using run tr by (intro exI [of _ w']) (simp add: decision_params)
qed

lemma flash_bootloader_run_write_fail:
  assumes found: "romfs_bootloader env = Some (fw, sz)"
    and needs: "\<not> fst (fst (uptodate_decision env fw (align32 sz) w))"
    and fresh: "trace w = []"
    and passes: "erase_passes env (align32 sz) n"
    and covered: "\<not> erased_size_after env n < align32 sz"
    and fails: "\<forall>k<max_attempts. \<not> write_result env k"
  shows "\<exists>w'. flash_bootloader env w = Some (FAIL, w')
           \<and> trace w' = [EvExpectDelay 11000, EvDebug Erasing] @ erase_events n
                @ [EvDebug (Flashing (getpageaddr env 0)), EvKeepUnlocked True]
                @ failed_attempts (getpageaddr env 0) (read_ram fw (unat (align32 sz))) 0
                    max_attempts
                @ [EvKeepUnlocked False, EvDebug (FlashFailedAfter max_attempts), EvFree]
           \<and> \<not> unlocked w'"
proof -
  from flash_bootloader_erased [OF found needs fresh passes covered]
  obtain w2 where run: "flash_bootloader env w
             = Some (write_phase env (getpageaddr env 0) (read_ram fw (unat (align32 sz)))
                       (snd (fst (uptodate_decision env fw (align32 sz) w))) w2)"
    and tr: "trace w2 = [EvExpectDelay 11000, EvDebug Erasing] @ erase_events n" by blast
  have b: "write_calls (trace w2) = 0" using tr by simp
  from fails have f': "\<forall>k<max_attempts. \<not> write_result env (0 + k)" by simp
  from write_phase_fail [OF b f', of "getpageaddr env 0" "read_ram fw (unat (align32 sz))"
      "snd (fst (uptodate_decision env fw (align32 sz) w))"]
  obtain w' where "write_phase env (getpageaddr env 0) (read_ram fw (unat (align32 sz)))
                       (snd (fst (uptodate_decision env fw (align32 sz) w))) w2 = (FAIL, w')"
    and "trace w' = trace w2 @ [EvDebug (Flashing (getpageaddr env 0)), EvKeepUnlocked True]
                  @ failed_attempts (getpageaddr env 0) (read_ram fw (unat (align32 sz))) 0
                      max_attempts
                  @ [EvKeepUnlocked False, EvDebug (FlashFailedAfter max_attempts), EvFree]"
    and "\<not> unlocked w'" by blast
  then show ?thesis
    using run tr by (intro exI [of _ w']) simp
qed

lemma flash_bootloader_run_erase_fail:
  assumes found: "romfs_bootloader env = Some (fw, sz)"
    and needs: "\<not> fst (fst (uptodate_decision env fw (align32 sz) w))"
    and fresh: "trace w = []"
    and passes: "erase_passes env (align32 sz) n"
    and short: "erased_size_after env n < align32 sz"
    and bad: "getpagesize env (of_nat n) = 0 \<or> \<not> erase_result env n"
  shows "\<exists>w'. flash_bootloader env w = Some (FAIL, w')
           \<and> trace w' = [EvExpectDelay 11000, EvDebug Erasing] @ erase_events n
                @ erase_failure env n
           \<and> unlocked w' = unlocked w"
proof -
  let ?w1 = "Debug Erasing (expect_delay_ms 11000 w)"
  have "erase_calls (trace ?w1) = 0" using fresh by simp
  from erase_phase_fail [OF this passes short bad]
  obtain w' where "erase_loop env (align32 sz) 0 0 ?w1 = Some (Some FAIL, w')"
    and "trace w' = trace ?w1 @ erase_events n @ erase_failure env n"
    and "unlocked w' = unlocked ?w1" by blast
  then show ?thesis
    using fresh by (intro exI [of _ w']) (simp add: flash_bootloader_update [OF found needs])
qed

lemma flash_bootloader_cases:
  assumes "flash_bootloader env w = Some (r, w')"
  obtains
    (not_available) "romfs_bootloader env = None" "r = NOT_AVAILABLE"
      "w' = Debug FailedToFind (expect_delay_ms 11000 w)"
  | (no_change) fw sz where "romfs_bootloader env = Some (fw, sz)" "r = NO_CHANGE"
      "fst (fst (uptodate_decision env fw (align32 sz) w))"
      "w' = romfs_free (Debug UpToDate (expect_delay_ms 11000 w))"
  | (erase_failed) fw sz where "romfs_bootloader env = Some (fw, sz)" "r = FAIL"
      "\<not> fst (fst (uptodate_decision env fw (align32 sz) w))"
      "erase_loop env (align32 sz) 0 0 (Debug Erasing (expect_delay_ms 11000 w))
         = Some (Some FAIL, w')"
  | (written) fw sz w2 where "romfs_bootloader env = Some (fw, sz)"
      "\<not> fst (fst (uptodate_decision env fw (align32 sz) w))"
      "erase_loop env (align32 sz) 0 0 (Debug Erasing (expect_delay_ms 11000 w))
         = Some (None, w2)"
      "(r, w') = write_phase env (getpageaddr env 0) (read_ram fw (unat (align32 sz)))
                   (snd (fst (uptodate_decision env fw (align32 sz) w))) w2"
proof (cases "romfs_bootloader env")
  case None
  with assms flash_bootloader_not_available [of env w] not_available show ?thesis by simp
next
  case (Some p)
  obtain fw sz where p: "p = (fw, sz)" by (cases p)
  with Some have found: "romfs_bootloader env = Some (fw, sz)" by simp
  show ?thesis
  proof (cases "fst (fst (uptodate_decision env fw (align32 sz) w))")
    case True
    with assms flash_bootloader_uptodate [OF found True] no_change [OF found] show ?thesis
      by simp
  next
    case False
    note upd = flash_bootloader_update [OF found False]
    show ?thesis
    proof (cases "erase_loop env (align32 sz) 0 0 (Debug Erasing (expect_delay_ms 11000 w))")
      case None
      with assms upd show ?thesis by simp
    next
      case (Some y)
      obtain e w2 where y: "y = (e, w2)" by (cases y)
      show ?thesis
      proof (cases e)
        case None
        with assms upd Some y written [OF found False, of w2] show ?thesis by simp
      next
        case (Some res)
        with \<open>erase_loop env (align32 sz) 0 0 (Debug Erasing (expect_delay_ms 11000 w)) = Some y\<close> y
        have el: "erase_loop env (align32 sz) 0 0 (Debug Erasing (expect_delay_ms 11000 w))
                   = Some (Some res, w2)" by simp
        from erase_loop_effect [OF el] have "res = FAIL" by simp
        with assms upd el erase_failed [OF found _ False] show ?thesis by simp
      qed
    qed
  qed
qed

subsection \<open>Runs on the board\<close>

text \<open>Unfolding rules that run the parameter functions on a concrete board.\<close>

lemmas eval_params = board_def get_persistent_params_def persistent_header_def es_new_def
  es_printf_def es_append_def ins_get_persistent_params_def has_failed_allocation_def
  get_length_def Let_def pad_to_32.simps persistable_texts_def

lemma outcome_Some [simp]: "outcome (Some (r, w)) = Some r"
  by (simp add: outcome_def)

lemma final_trace_Some [simp]: "final_trace (Some (r, w)) = trace w"
  by (simp add: final_trace_def)

lemmas upt_numeral = upt_rec [of _ "numeral _"]

lemma align32_32 [simp]: "align32 32 = 32"
  by (simp add: align32_def)

lemma board_params:
  "get_persistent_params (board\<lparr>erase_result := er, write_result := wr\<rparr>) es_new
     = (True, \<lparr>buf = demo_params, allocation_failed = False\<rparr>)"
  by (simp add: eval_params demo_params_def)

lemma board_blank_needs_update:
  "\<not> fst (fst (uptodate_decision (board\<lparr>erase_result := er, write_result := wr\<rparr>)
                 demo_image 32 blank))"
  by (simp add: uptodate_decision_def Let_def board_params)
     (simp add: board_def blank_def read_ram_def read_flash_def demo_image_def upt_numeral)

lemma board_erase_one_page:
  "erase_passes (board\<lparr>erase_result := (\<lambda>n. True), write_result := wr\<rparr>) 32 (Suc 0)
   \<and> \<not> erased_size_after (board\<lparr>erase_result := (\<lambda>n. True), write_result := wr\<rparr>) (Suc 0) < 32"
  by (simp add: board_def)

lemma board_same: "board\<lparr>erase_result := (\<lambda>n. True), write_result := (\<lambda>n. True)\<rparr> = board"
  by (simp add: board_def)

lemma flashed_page:
  "read_flash (mem flashed) 0x08000000 128
     = read_ram demo_image 32 @ read_ram (\<lambda>i. 255) 64 @ demo_params"
  by (simp add: read_flash_def read_ram_def flashed_def demo_params_def persistent_header_def
      demo_image_def nth_Cons' upt_numeral)

lemma flashed_load:
  "load_persistent_params board flashed es_new
     = (True, \<lparr>buf = demo_params, allocation_failed = False\<rparr>)"
proof -
  have "memmem (read_ram demo_image 32 @ read_ram (\<lambda>i. 255) 64 @ demo_params) persistent_header
          = Some 96"
    by (simp add: read_ram_def demo_image_def demo_params_def persistent_header_def upt_numeral)
  then show ?thesis
    using flashed_page
    by (simp add: load_persistent_params_def board_def Let_def es_append_def es_new_def
        has_failed_allocation_def read_ram_def demo_params_def persistent_header_def
        upt_numeral)
qed

lemma board_found:
  "romfs_bootloader (board\<lparr>erase_result := er, write_result := wr\<rparr>) = Some (demo_image, 32)"
  by (simp add: board_def)

lemma board_run_ok:
  assumes "j < max_attempts" "\<forall>k<j. \<not> wr k" "wr j"
  shows "\<exists>w'. flash_bootloader (board\<lparr>erase_result := (\<lambda>n. True), write_result := wr\<rparr>) blank
                = Some (OK, w')
           \<and> trace w' = [EvExpectDelay 11000, EvDebug Erasing, EvExpectDelay 1000,
                          EvErase 0 True, EvDebug (Flashing 0x08000000), EvKeepUnlocked True]
                @ failed_attempts 0x08000000 (read_ram demo_image 32) 0 j
                @ [EvExpectDelay 1000, EvWrite 0x08000000 (read_ram demo_image 32) True,
                   EvDebug FlashOK, EvWrite 0x08000060 demo_params (wr (j + 1)),
                   EvKeepUnlocked False, EvFree]
           \<and> \<not> unlocked w'"
proof -
  let ?b = "board\<lparr>erase_result := (\<lambda>n. True), write_result := wr\<rparr>"
  have needs: "\<not> fst (fst (uptodate_decision ?b demo_image (align32 32) blank))"
    using board_blank_needs_update [where er = "\<lambda>n. True" and wr = wr] by simp
  have fresh: "trace blank = []" by (simp add: blank_def)
  have passes: "erase_passes ?b (align32 32) (Suc 0)"
    and covered: "\<not> erased_size_after ?b (Suc 0) < align32 32"
    using board_erase_one_page [where wr = wr] by simp_all
  have wr: "j < max_attempts" "\<forall>k<j. \<not> write_result ?b k" "write_result ?b j"
    using assms by simp_all
  have a: "getpageaddr ?b 0 = 0x08000000" "getpageaddr board 0 = 0x08000000"
    by (simp_all add: board_def)
  have pw: "params_write ?b 0x08000000 (snd (get_persistent_params ?b es_new)) ok
            = [EvWrite 0x08000060 demo_params ok]" for ok
    by (simp add: board_params params_write_def get_length_def)
       (simp add: board_def demo_params_def persistent_header_def)
  from flash_bootloader_run_ok [OF board_found needs fresh passes covered wr]
  show ?thesis
    by (simp add: a pw erase_events_Suc)
qed

lemma board_run_write_fail:
  assumes "\<forall>k<max_attempts. \<not> wr k"
  shows "\<exists>w'. flash_bootloader (board\<lparr>erase_result := (\<lambda>n. True), write_result := wr\<rparr>) blank
                = Some (FAIL, w')
           \<and> trace w' = [EvExpectDelay 11000, EvDebug Erasing, EvExpectDelay 1000,
                          EvErase 0 True, EvDebug (Flashing 0x08000000), EvKeepUnlocked True]
                @ failed_attempts 0x08000000 (read_ram demo_image 32) 0 max_attempts
                @ [EvKeepUnlocked False, EvDebug (FlashFailedAfter max_attempts), EvFree]
           \<and> \<not> unlocked w'"
proof -
  let ?b = "board\<lparr>erase_result := (\<lambda>n. True), write_result := wr\<rparr>"
  have needs: "\<not> fst (fst (uptodate_decision ?b demo_image (align32 32) blank))"
    using board_blank_needs_update [where er = "\<lambda>n. True" and wr = wr] by simp
  have fresh: "trace blank = []" by (simp add: blank_def)
  have passes: "erase_passes ?b (align32 32) (Suc 0)"
    and covered: "\<not> erased_size_after ?b (Suc 0) < align32 32"
    using board_erase_one_page [where wr = wr] by simp_all
  have wr: "\<forall>k<max_attempts. \<not> write_result ?b k"
    using assms by simp
  have a: "getpageaddr ?b 0 = 0x08000000" "getpageaddr board 0 = 0x08000000"
    by (simp_all add: board_def)
  from flash_bootloader_run_write_fail [OF board_found needs fresh passes covered wr]
  show ?thesis
    by (simp add: a erase_events_Suc)
qed

lemma board_run_erase_fail:
  "\<exists>w'. flash_bootloader (board\<lparr>erase_result := (\<lambda>n. False), write_result := wr\<rparr>) blank
                = Some (FAIL, w')
           \<and> trace w' = [EvExpectDelay 11000, EvDebug Erasing, EvExpectDelay 1000,
                          EvErase 0 False, EvDebug (EraseFailed 0), EvFree]
           \<and> \<not> unlocked w'"
proof -
  let ?b = "board\<lparr>erase_result := (\<lambda>n. False), write_result := wr\<rparr>"
  have needs: "\<not> fst (fst (uptodate_decision ?b demo_image (align32 32) blank))"
    using board_blank_needs_update [where er = "\<lambda>n. False" and wr = wr] by simp
  have fresh: "trace blank = []" by (simp add: blank_def)
  have passes: "erase_passes ?b (align32 32) 0" by simp
  have short: "erased_size_after ?b 0 < align32 32" by simp
  have bad: "getpagesize ?b (of_nat 0) = 0 \<or> \<not> erase_result ?b 0" by simp
  have f: "erase_failure ?b 0
             = [EvExpectDelay 1000, EvErase 0 False, EvDebug (EraseFailed 0), EvFree]"
    by (simp add: erase_failure_def board_def)
  from flash_bootloader_run_erase_fail [OF board_found needs fresh passes short bad]
  show ?thesis
    by (simp add: f) (simp add: blank_def)
qed

lemma board_run_no_change:
  "flash_bootloader board flashed
     = Some (NO_CHANGE, romfs_free (Debug UpToDate (expect_delay_ms 11000 flashed)))"
proof -
  have p: "get_persistent_params board es_new
             = (True, \<lparr>buf = demo_params, allocation_failed = False\<rparr>)"
    using board_params [where er = "\<lambda>n. True" and wr = "\<lambda>n. True"] by (simp add: board_same)
  have "read_ram demo_image 32 = read_flash (mem flashed) 0x08000000 32"
    by (simp add: flashed_def read_ram_def read_flash_def demo_image_def upt_numeral)
  then have "fst (fst (uptodate_decision board demo_image (align32 32) flashed))"
    by (simp add: uptodate_decision_def Let_def p flashed_load strcmp_differs_def)
       (simp add: board_def)
  moreover have "romfs_bootloader board = Some (demo_image, 32)"
    by (simp add: board_def)
  ultimately show ?thesis
    by (rule flash_bootloader_uptodate [rotated])
qed

lemma failed_attempts_writes [simp]:
  "filter is_write (failed_attempts a d i j) = replicate j (EvWrite a d False)"
  by (induction j) (simp_all add: failed_attempts_Suc replicate_append_same)

lemma params_write_writes [simp]:
  "filter is_write (params_write env a pp ok) = params_write env a pp ok"
  by (simp add: params_write_def)

lemma erase_events_writes [simp]: "filter is_write (erase_events n) = []"
  by (induction n) (simp_all add: erase_events_Suc)

lemma serialized_header:
  "get_length (snd (get_persistent_params env es_new)) \<noteq> 0 \<Longrightarrow>
   prefix persistent_header (buf (snd (get_persistent_params env es_new)))"
  using serialized_empty_or_header [of env] by (auto simp: get_length_def)

lemma board_write_only:
  "board\<lparr>erase_result := (\<lambda>n. True), write_result := wr\<rparr> = board\<lparr>write_result := wr\<rparr>"
  by (simp add: board_def)

lemma board_blank_facts:
  "romfs_bootloader (board\<lparr>write_result := wr\<rparr>) = Some (demo_image, 32)"
  "\<not> fst (fst (uptodate_decision (board\<lparr>write_result := wr\<rparr>) demo_image (align32 32) blank))"
  "trace blank = []"
  "erase_passes (board\<lparr>write_result := wr\<rparr>) (align32 32) (Suc 0)"
  "\<not> erased_size_after (board\<lparr>write_result := wr\<rparr>) (Suc 0) < align32 32"
  using board_found [where er = "\<lambda>n. True" and wr = wr]
    board_blank_needs_update [where er = "\<lambda>n. True" and wr = wr]
    board_erase_one_page [where wr = wr]
  by (simp_all add: board_write_only blank_def)

lemma board_params_write:
  "params_write (board\<lparr>write_result := wr\<rparr>) 0x08000000
     (snd (get_persistent_params (board\<lparr>write_result := wr\<rparr>) es_new)) ok
   = [EvWrite 0x08000060 demo_params ok]"
  using board_params [where er = "\<lambda>n. True" and wr = wr]
  by (simp add: board_write_only params_write_def get_length_def)
     (simp add: board_def demo_params_def persistent_header_def)

lemma erase_failure_calls [simp]:
  "write_calls (erase_failure env n) = 0"
  "free_calls (erase_failure env n) = 1"
  "erase_calls (erase_failure env n) = (if getpagesize env (of_nat n) = 0 then 0 else 1)"
  by (simp_all add: erase_failure_def)

subsection \<open>Applying the parameters\<close>

lemma set_default_explicit [simp]:
  "explicit_value (snd (set_default_by_name n v st)) = explicit_value st"
  by (simp add: set_default_by_name_def split: option.splits)

lemma set_default_keeps_default:
  "explicit_value st name = Some x \<Longrightarrow>
   default_value (snd (set_default_by_name n v st)) name = default_value st name"
  by (auto simp: set_default_by_name_def split: option.splits)

lemma apply_record_explicit [simp]:
  "explicit_value (fst (apply_record atof sc p)) = explicit_value (fst sc)"
  by (simp add: apply_record_def Let_def)

lemma apply_record_keeps_default:
  "explicit_value (fst sc) name = Some x \<Longrightarrow>
   default_value (fst (apply_record atof sc p)) name = default_value (fst sc) name"
  by (simp add: apply_record_def Let_def set_default_keeps_default)

lemma apply_record_skips: "61 \<notin> set p \<Longrightarrow> apply_record atof sc p = sc"
  by (simp add: apply_record_def)

lemma apply_records_explicit [simp]:
  "explicit_value (fst (foldl (apply_record atof) sc ps)) = explicit_value (fst sc)"
  by (induction ps arbitrary: sc) simp_all

lemma apply_records_keep_default:
  "explicit_value (fst sc) name = Some x \<Longrightarrow>
   default_value (fst (foldl (apply_record atof) sc ps)) name = default_value (fst sc) name"
proof (induction ps arbitrary: sc)
  case Nil
  show ?case by simp
next
  case (Cons p ps)
  from Cons.prems have "explicit_value (fst (apply_record atof sc p)) name = Some x"
    by simp
  from Cons.IH [OF this] Cons.prems show ?case
    by (simp add: apply_record_keeps_default)
qed

lemma apply_records_skip:
  "foldl (apply_record atof) sc ps
     = foldl (apply_record atof) sc (filter (\<lambda>p. 61 \<in> set p) ps)"
  by (induction ps arbitrary: sc) (simp_all add: apply_record_skips)

lemma flashed_tokens:
  "strtok_r [] (drop (length persistent_header) (c_str demo_params))
     = [[88, 61, 49], [32, 32, 32, 32]]"
  by (simp add: demo_params_def persistent_header_def c_str_def)

subsection \<open>Runs that change nothing\<close>

text \<open>
  When the decision of the code is "up to date", the function announces the delay,
  prints a message, frees the image and returns \<open>NO_CHANGE\<close>. The first lemma has the
  space test as the code makes it, on the unsigned 32-bit difference; the second has it
  on the integers, for an image that is not larger than page 0.
\<close>

lemma flash_bootloader_no_change:
  assumes "romfs_bootloader env = Some (fw, sz)"
    and "read_ram fw (unat (align32 sz))
           = read_flash (mem w) (getpageaddr env 0) (unat (align32 sz))"
    and "HAL_ENABLE_SAVE_PERSISTENT_PARAMS env \<longrightarrow>
           \<not> fst (get_persistent_params env es_new)
         \<or> unat (getpagesize env 0 - align32 sz)
             < get_length (snd (get_persistent_params env es_new))
         \<or> fst (load_persistent_params env w es_new)
           \<and> \<not> strcmp_differs (buf (snd (get_persistent_params env es_new)))
                 (buf (snd (load_persistent_params env w es_new)))"
  shows "\<exists>w'. flash_bootloader env w = Some (NO_CHANGE, w')
           \<and> trace w' = trace w @ [EvExpectDelay 11000, EvDebug UpToDate, EvFree]
           \<and> erase_calls (trace w') = erase_calls (trace w)
           \<and> write_calls (trace w') = write_calls (trace w)
           \<and> mem w' = mem w \<and> unlocked w' = unlocked w"
proof -
  have "fst (fst (uptodate_decision env fw (align32 sz) w))"
    using assms(2,3) by (auto simp: uptodate_decision_def Let_def)
  from flash_bootloader_uptodate [OF assms(1) this]
  show ?thesis by simp
qed

lemma flash_bootloader_no_change_within_page:
  assumes found: "romfs_bootloader env = Some (fw, sz)"
    and same: "read_ram fw (unat (align32 sz))
           = read_flash (mem w) (getpageaddr env 0) (unat (align32 sz))"
    and within: "align32 sz \<le> getpagesize env 0"
    and params: "HAL_ENABLE_SAVE_PERSISTENT_PARAMS env \<longrightarrow>
           \<not> fst (get_persistent_params env es_new)
         \<or> int (unat (getpagesize env 0)) - int (unat (align32 sz))
             < int (get_length (snd (get_persistent_params env es_new)))
         \<or> fst (load_persistent_params env w es_new)
           \<and> \<not> strcmp_differs (buf (snd (get_persistent_params env es_new)))
                 (buf (snd (load_persistent_params env w es_new)))"
  shows "\<exists>w'. flash_bootloader env w = Some (NO_CHANGE, w')
           \<and> trace w' = trace w @ [EvExpectDelay 11000, EvDebug UpToDate, EvFree]
           \<and> erase_calls (trace w') = erase_calls (trace w)
           \<and> write_calls (trace w') = write_calls (trace w)
           \<and> mem w' = mem w \<and> unlocked w' = unlocked w"
proof -
  have ari: "(int p - int a < int l) = (p - a < l)" if "a \<le> p" for p a l :: nat
    using that by linarith
  from within have le: "unat (align32 sz) \<le> unat (getpagesize env 0)"
    by (simp add: word_le_nat_alt)
  from within have "unat (getpagesize env 0 - align32 sz)
      = unat (getpagesize env 0) - unat (align32 sz)"
    by (rule unat_sub)
  then have "HAL_ENABLE_SAVE_PERSISTENT_PARAMS env \<longrightarrow>
           \<not> fst (get_persistent_params env es_new)
         \<or> unat (getpagesize env 0 - align32 sz)
             < get_length (snd (get_persistent_params env es_new))
         \<or> fst (load_persistent_params env w es_new)
           \<and> \<not> strcmp_differs (buf (snd (get_persistent_params env es_new)))
                 (buf (snd (load_persistent_params env w es_new)))"
    using params unfolding ari [OF le] by simp
  with found same show ?thesis
    by (rule flash_bootloader_no_change)
qed

section \<open>The claims\<close>

subsection \<open>C7: what get\_persistent\_params yields\<close>

text \<open>
  C7, as stated, has the serialization yield a blob of length 0 whenever there is nothing
  to persist. On the board without an inertial sensor singleton the function returns
  \<open>False\<close>, and the string it was given holds the header alone: 24 bytes, not 0. The
  length is what \<^verbatim>\<open>flash_bootloader\<close> looks at before it writes the parameters (source
  line 282), so on an erased flash the header alone is written at the end of page 0.
\<close>

theorem serialize_empty_keeps_header:
  "concat (persistable_texts no_sensor) = []
   \<and> \<not> fst (get_persistent_params no_sensor es_new)
   \<and> buf (snd (get_persistent_params no_sensor es_new)) = persistent_header
   \<and> get_length (snd (get_persistent_params no_sensor es_new)) \<noteq> 0
   \<and> outcome (flash_bootloader no_sensor blank) = Some OK
   \<and> filter is_write (final_trace (flash_bootloader no_sensor blank))
       = [EvWrite 0x08000000 (read_ram demo_image 32) True,
          EvWrite 0x08000068 persistent_header True]"
proof -
  have p: "get_persistent_params no_sensor es_new
             = (False, \<lparr>buf = persistent_header, allocation_failed = False\<rparr>)"
    by (simp add: no_sensor_def eval_params)
  have needs: "\<not> fst (fst (uptodate_decision no_sensor demo_image (align32 32) blank))"
    by (simp add: uptodate_decision_def Let_def p)
       (simp add: no_sensor_def board_def blank_def read_ram_def read_flash_def demo_image_def
          upt_numeral)
  have facts: "romfs_bootloader no_sensor = Some (demo_image, 32)"
    "trace blank = []"
    "erase_passes no_sensor (align32 32) (Suc 0)"
    "\<not> erased_size_after no_sensor (Suc 0) < align32 32"
    "0 < max_attempts" "\<forall>k<0. \<not> write_result no_sensor k" "write_result no_sensor 0"
    by (simp_all add: no_sensor_def board_def blank_def max_attempts_def)
  have pw: "params_write no_sensor 0x08000000 (snd (get_persistent_params no_sensor es_new)) ok
              = [EvWrite 0x08000068 persistent_header ok]" for ok
    by (simp add: p params_write_def get_length_def)
       (simp add: no_sensor_def board_def persistent_header_def)
  have a: "getpageaddr no_sensor 0 = 0x08000000" "write_result no_sensor (Suc 0)"
    by (simp_all add: no_sensor_def board_def)
  from flash_bootloader_run_ok [OF facts(1) needs facts(2-7)]
  obtain w' where "flash_bootloader no_sensor blank = Some (OK, w')"
    and "filter is_write (trace w')
           = [EvWrite 0x08000000 (read_ram demo_image 32) True,
              EvWrite 0x08000068 persistent_header True]"
    by (auto simp: a pw)
  then show ?thesis
    by (simp add: p get_length_def) (simp add: no_sensor_def persistable_texts_def board_def
        persistent_header_def)
qed

text \<open>
  C7, amended. \<^verbatim>\<open>get_persistent_params\<close> returns \<open>False\<close> (its signal for "nothing to
  persist") when nothing is contributed beyond the header, and when the growth of the
  buffer has failed; the string is not cleared, and holds the header alone when
  nothing was contributed and the header could be stored. Whenever it returns \<open>True\<close>,
  the length of the string is a multiple of 32, it is strictly greater than the length
  of the header, and the string begins with the header.
\<close>

theorem get_persistent_params_signal:
  fixes env :: env
  defines "r \<equiv> get_persistent_params env es_new"
  shows "(concat (persistable_texts env) = [] \<longrightarrow>
            \<not> fst r \<and> (24 \<le> heap_limit env \<longrightarrow> buf (snd r) = persistent_header))
       \<and> (has_failed_allocation (snd r) \<longrightarrow> \<not> fst r)
       \<and> (fst r \<longrightarrow>
            get_length (snd r) mod 32 = 0
          \<and> length persistent_header < get_length (snd r)
          \<and> prefix persistent_header (buf (snd r)))"
proof -
  let ?l = "heap_limit env"
  let ?s1 = "es_printf ?l persistent_header es_new"
  let ?s2 = "ins_get_persistent_params ?l (persistable_texts env) ?s1"
  have r: "r = (if has_failed_allocation ?s2 \<or> get_length ?s2 \<le> length persistent_header
                then (False, ?s2)
                else (\<not> has_failed_allocation (pad_to_32 ?l ?s2), pad_to_32 ?l ?s2))"
    by (simp add: r_def get_persistent_params_alt Let_def)
  have nodata: "\<not> fst r \<and> (24 \<le> ?l \<longrightarrow> buf (snd r) = persistent_header)"
    if c: "concat (persistable_texts env) = []"
  proof (cases "24 \<le> ?l")
    case True
    then have s1: "?s1 = \<lparr>buf = persistent_header, allocation_failed = False\<rparr>"
      by (simp add: header_printed)
    have "?s2 = ?s1"
      using c True by (intro ins_get_no_text) (simp_all add: s1 length_persistent_header)
    with s1 r True show ?thesis
      by (simp add: get_length_def)
  next
    case False
    then have s1: "allocation_failed ?s1"
      by (simp add: header_printed)
    then have "?s2 = ?s1" by (rule ins_get_failed_empty)
    with s1 r False show ?thesis
      by (simp add: has_failed_allocation_def)
  qed
  have failed: "\<not> fst r" if f: "has_failed_allocation (snd r)"
    using f r by (auto split: if_splits)
  have ok: "get_length (snd r) mod 32 = 0
          \<and> length persistent_header < get_length (snd r)
          \<and> prefix persistent_header (buf (snd r))" if t: "fst r"
  proof -
    from t r have c: "\<not> (has_failed_allocation ?s2 \<or> get_length ?s2 \<le> length persistent_header)"
      by (auto split: if_splits)
    with r have e: "snd r = pad_to_32 ?l ?s2" and nf: "\<not> has_failed_allocation (pad_to_32 ?l ?s2)"
      using t by simp_all
    have "get_length (pad_to_32 ?l ?s2) mod 32 = 0"
      using pad_to_32_failed_or_aligned [of ?l ?s2] nf by simp
    moreover have "length (buf ?s2) \<le> length (buf (pad_to_32 ?l ?s2))"
      using pad_to_32_prefix [of ?s2 ?l] by (rule prefix_length_le)
    then have "length persistent_header < get_length (pad_to_32 ?l ?s2)"
      using c by (simp add: get_length_def)
    moreover have "prefix persistent_header (buf (snd r))"
      using serialized_empty_or_header [of env] e c \<open>length persistent_header < get_length (pad_to_32 ?l ?s2)\<close>
      by (auto simp: r_def get_length_def)
    ultimately show ?thesis using e by simp
  qed
  from nodata failed ok show ?thesis by blast
qed

text \<open>
  The three cases on the board: no singleton; a heap too small for the padding; one
  parameter line.
\<close>

theorem get_persistent_params_signal_witness:
  "concat (persistable_texts (board\<lparr>ins_persistent_params := None\<rparr>)) = []
   \<and> \<not> fst (get_persistent_params (board\<lparr>ins_persistent_params := None\<rparr>) es_new)
   \<and> buf (snd (get_persistent_params (board\<lparr>ins_persistent_params := None\<rparr>) es_new))
       = persistent_header
   \<and> has_failed_allocation (snd (get_persistent_params (board\<lparr>heap_limit := 30\<rparr>) es_new))
   \<and> \<not> fst (get_persistent_params (board\<lparr>heap_limit := 30\<rparr>) es_new)
   \<and> fst (get_persistent_params board es_new)
   \<and> get_length (snd (get_persistent_params board es_new)) mod 32 = 0
   \<and> length persistent_header < get_length (snd (get_persistent_params board es_new))
   \<and> prefix persistent_header (buf (snd (get_persistent_params board es_new)))"
proof -
  have a: "concat (persistable_texts (board\<lparr>ins_persistent_params := None\<rparr>)) = []"
    and l: "24 \<le> heap_limit (board\<lparr>ins_persistent_params := None\<rparr>)"
    by (simp_all add: board_def persistable_texts_def)
  have b: "has_failed_allocation (snd (get_persistent_params (board\<lparr>heap_limit := 30\<rparr>) es_new))"
    by (simp add: eval_params)
  have c: "fst (get_persistent_params board es_new)"
    by (simp add: eval_params)
  show ?thesis
    using get_persistent_params_signal [of "board\<lparr>ins_persistent_params := None\<rparr>"]
      get_persistent_params_signal [of "board\<lparr>heap_limit := 30\<rparr>"]
      get_persistent_params_signal [of board] a l b c
    by simp
qed

subsection \<open>C9: the decision step leaves the flash alone\<close>

text \<open>
  C9. The up-to-date decision (the comparison of the image and, when parameters are
  preserved, their serialization, the space check and the comparison of the texts) hands
  the world back as it received it: flash contents, unlock gate and trace are unchanged,
  for every input.
\<close>

theorem decision_reads_only:
  "snd (uptodate_decision env fw fw_size w) = w"
  by (simp add: uptodate_decision_def Let_def)

text \<open>
  On the board, on the flash that is up to date and on the erased flash that is not.
\<close>

theorem decision_reads_only_witness:
  "snd (uptodate_decision board demo_image 32 flashed) = flashed
   \<and> snd (uptodate_decision board demo_image 32 blank) = blank
   \<and> \<not> fst (fst (uptodate_decision board demo_image 32 blank))"
  using decision_reads_only [of board demo_image 32 flashed]
    decision_reads_only [of board demo_image 32 blank]
    board_blank_needs_update [where er = "\<lambda>n. True" and wr = "\<lambda>n. True"]
  by (simp add: board_same)

subsection \<open>C1: an image that is up to date\<close>

text \<open>
  C1 asks for \<open>NO_CHANGE\<close>, with no erase and no write call, whenever the image equals
  the first \<open>aligned_size\<close> bytes at the base of page 0 and the serialized parameters do
  not fit in \<open>page_size - aligned_size\<close> or equal the blob found in page 0. The code
  keeps the remaining space in an \<^verbatim>\<open>int32_t\<close> and then compares it with an unsigned
  length (source lines 229 to 232), so a negative space counts as a very large one. On
  the board with two pages of 16 bytes the image of 32 bytes is in the flash already
  and the 32 bytes of parameters do not fit in 16 - 32; the code takes them to fit,
  finds no blob in page 0, erases both pages, writes the image and writes the parameters
  16 bytes below the base of page 0, and returns \<open>OK\<close>.
\<close>

theorem update_rewrites_identical_image:
  "romfs_bootloader two_pages = Some (demo_image, 32)
   \<and> read_ram demo_image (unat (align32 32))
       = read_flash (mem resident) (getpageaddr two_pages 0) (unat (align32 32))
   \<and> HAL_ENABLE_SAVE_PERSISTENT_PARAMS two_pages
   \<and> buf (snd (get_persistent_params two_pages es_new)) = demo_params
   \<and> int (unat (getpagesize two_pages 0)) - int (unat (align32 32))
       < int (get_length (snd (get_persistent_params two_pages es_new)))
   \<and> outcome (flash_bootloader two_pages resident) = Some OK
   \<and> filter is_erase (final_trace (flash_bootloader two_pages resident))
       = [EvErase 0 True, EvErase 1 True]
   \<and> filter is_write (final_trace (flash_bootloader two_pages resident))
       = [EvWrite 0x08000000 (read_ram demo_image 32) True,
          EvWrite 0x07FFFFF0 demo_params True]"
proof -
  have p: "get_persistent_params two_pages es_new
             = (True, \<lparr>buf = demo_params, allocation_failed = False\<rparr>)"
    by (simp add: two_pages_def eval_params demo_params_def)
  have found: "romfs_bootloader two_pages = Some (demo_image, 32)"
    by (simp add: two_pages_def board_def)
  have same: "read_ram demo_image (unat (align32 32))
       = read_flash (mem resident) (getpageaddr two_pages 0) (unat (align32 32))"
    by (simp add: resident_def read_ram_def read_flash_def demo_image_def)
  have page: "read_flash (mem resident) 0x08000000 16 = replicate 16 7"
    by (simp add: resident_def read_flash_def map_replicate_const)
  have "memmem (replicate 16 7) persistent_header = None"
    by (simp add: persistent_header_def numeral_eq_Suc)
  with page have nl: "\<not> fst (load_persistent_params two_pages resident es_new)"
    by (simp add: load_persistent_params_def two_pages_def board_def Let_def)
  have needs: "\<not> fst (fst (uptodate_decision two_pages demo_image (align32 32) resident))"
    using nl by (simp add: uptodate_decision_def Let_def p get_length_def)
       (simp add: two_pages_def board_def demo_params_def persistent_header_def)
  have facts: "trace resident = []"
    "erase_passes two_pages (align32 32) (Suc (Suc 0))"
    "\<not> erased_size_after two_pages (Suc (Suc 0)) < align32 32"
    "0 < max_attempts" "\<forall>k<0. \<not> write_result two_pages k" "write_result two_pages 0"
    by (simp_all add: two_pages_def board_def resident_def max_attempts_def)
  have a: "getpageaddr two_pages 0 = 0x08000000" "write_result two_pages (Suc 0)"
    "HAL_ENABLE_SAVE_PERSISTENT_PARAMS two_pages"
    by (simp_all add: two_pages_def board_def)
  have pw: "params_write two_pages 0x08000000 (snd (get_persistent_params two_pages es_new)) ok
              = [EvWrite 0x07FFFFF0 demo_params ok]" for ok
    by (simp add: p params_write_def get_length_def)
       (simp add: two_pages_def board_def demo_params_def persistent_header_def)
  have ee: "filter is_erase (erase_events (Suc (Suc 0))) = [EvErase 0 True, EvErase 1 True]"
    by (simp add: erase_events_Suc)
  have fit: "int (unat (getpagesize two_pages 0)) - int (unat (align32 32))
       < int (get_length (snd (get_persistent_params two_pages es_new)))"
    by (simp add: p get_length_def) (simp add: two_pages_def board_def)
  from flash_bootloader_run_ok [OF found needs facts]
  obtain w' where "flash_bootloader two_pages resident = Some (OK, w')"
    and "trace w' = [EvExpectDelay 11000, EvDebug Erasing] @ erase_events (Suc (Suc 0))
                @ [EvDebug (Flashing 0x08000000), EvKeepUnlocked True]
                @ [EvExpectDelay 1000, EvWrite 0x08000000 (read_ram demo_image 32) True,
                   EvDebug FlashOK, EvWrite 0x07FFFFF0 demo_params True,
                   EvKeepUnlocked False, EvFree]"
    by (auto simp: a pw)
  then show ?thesis
    using found same fit a(3) by (simp add: p ee)
qed

subsection \<open>C2: the image is freed once\<close>

text \<open>
  C2, as stated, has the image released exactly once on every branch, also when the
  result is \<open>NOT_AVAILABLE\<close>. On that branch \<^verbatim>\<open>find_decompress\<close> returned no buffer and
  \<^verbatim>\<open>AP_ROMFS::free\<close> is not called at all.
\<close>

theorem not_available_releases_nothing:
  "outcome (flash_bootloader (board\<lparr>romfs_bootloader := None\<rparr>) blank) = Some NOT_AVAILABLE
   \<and> free_calls (final_trace (flash_bootloader (board\<lparr>romfs_bootloader := None\<rparr>) blank)) = 0"
  by (simp add: flash_bootloader_not_available board_def blank_def)

text \<open>
  C2, amended. Every run of \<^verbatim>\<open>flash_bootloader\<close> that returns calls \<^verbatim>\<open>AP_ROMFS::free\<close>
  exactly once if the image was found (whether the result is \<open>OK\<close>, \<open>NO_CHANGE\<close> or
  \<open>FAIL\<close>), and not at all if it was not found; the result is \<open>NOT_AVAILABLE\<close> exactly when
  the image was not found.
\<close>

theorem image_released_once:
  assumes "flash_bootloader env w = Some (r, w')"
  shows "free_calls (trace w')
           = free_calls (trace w) + (if romfs_bootloader env = None then 0 else 1)
       \<and> (r = NOT_AVAILABLE \<longleftrightarrow> romfs_bootloader env = None)"
  using assms
proof (cases rule: flash_bootloader_cases)
  case not_available
  then show ?thesis by simp
next
  case (no_change fw sz)
  then show ?thesis by simp
next
  case (erase_failed fw sz)
  from erase_loop_effect [OF erase_failed(4)] erase_failed(1,2) show ?thesis by simp
next
  case (written fw sz w2)
  from erase_loop_effect [OF written(3)]
  have e: "free_calls (trace w2) = free_calls (trace w)" by simp
  let ?wp = "write_phase env (getpageaddr env 0) (read_ram fw (unat (align32 sz)))
               (snd (fst (uptodate_decision env fw (align32 sz) w))) w2"
  from write_phase_any [of env "getpageaddr env 0" "read_ram fw (unat (align32 sz))"
      "snd (fst (uptodate_decision env fw (align32 sz) w))" w2]
  obtain mid post where "trace (snd ?wp) = trace w2
        @ [EvDebug (Flashing (getpageaddr env 0)), EvKeepUnlocked True] @ mid
        @ [EvKeepUnlocked False] @ post"
    and "free_calls mid = 0" "free_calls post = 1"
    and "fst ?wp = OK \<or> fst ?wp = FAIL" by blast
  moreover from written(4) have "r = fst ?wp" "w' = snd ?wp"
    by (simp_all add: prod_eq_iff)
  ultimately show ?thesis
    using e written(1) by auto
qed

text \<open>
  The five ways out on the board: written, up to date, erase failed, all writes failed,
  no image.
\<close>

theorem image_released_once_witness:
  "outcome (flash_bootloader board blank) = Some OK
   \<and> free_calls (final_trace (flash_bootloader board blank)) = 1
   \<and> outcome (flash_bootloader board flashed) = Some NO_CHANGE
   \<and> free_calls (final_trace (flash_bootloader board flashed)) = 1
   \<and> outcome (flash_bootloader (board\<lparr>erase_result := (\<lambda>n. False)\<rparr>) blank) = Some FAIL
   \<and> free_calls (final_trace (flash_bootloader (board\<lparr>erase_result := (\<lambda>n. False)\<rparr>) blank)) = 1
   \<and> outcome (flash_bootloader (board\<lparr>write_result := (\<lambda>n. False)\<rparr>) blank) = Some FAIL
   \<and> free_calls (final_trace (flash_bootloader (board\<lparr>write_result := (\<lambda>n. False)\<rparr>) blank)) = 1
   \<and> outcome (flash_bootloader (board\<lparr>romfs_bootloader := None\<rparr>) blank) = Some NOT_AVAILABLE
   \<and> free_calls (final_trace (flash_bootloader (board\<lparr>romfs_bootloader := None\<rparr>) blank)) = 0"
proof -
  have e1: "board\<lparr>erase_result := (\<lambda>n. False), write_result := (\<lambda>n. True)\<rparr>
              = board\<lparr>erase_result := (\<lambda>n. False)\<rparr>"
    and e2: "board\<lparr>erase_result := (\<lambda>n. True), write_result := (\<lambda>n. False)\<rparr>
              = board\<lparr>write_result := (\<lambda>n. False)\<rparr>"
    by (simp_all add: board_def)
  have f: "romfs_bootloader board \<noteq> None"
    "romfs_bootloader (board\<lparr>erase_result := (\<lambda>n. False)\<rparr>) \<noteq> None"
    "romfs_bootloader (board\<lparr>write_result := (\<lambda>n. False)\<rparr>) \<noteq> None"
    "romfs_bootloader (board\<lparr>romfs_bootloader := None\<rparr>) = None"
    "free_calls (trace blank) = 0" "free_calls (trace flashed) = 0"
    by (simp_all add: board_def blank_def flashed_def)
  from board_run_ok [where j = 0 and wr = "\<lambda>n. True"]
  obtain w1 where r1: "flash_bootloader board blank = Some (OK, w1)"
    by (auto simp: board_same max_attempts_def)
  obtain w2 where r2: "flash_bootloader board flashed = Some (NO_CHANGE, w2)"
    using board_run_no_change by simp
  from board_run_erase_fail [where wr = "\<lambda>n. True"]
  obtain w3 where r3: "flash_bootloader (board\<lparr>erase_result := (\<lambda>n. False)\<rparr>) blank
                         = Some (FAIL, w3)"
    by (auto simp: e1)
  from board_run_write_fail [where wr = "\<lambda>n. False"]
  obtain w4 where r4: "flash_bootloader (board\<lparr>write_result := (\<lambda>n. False)\<rparr>) blank
                         = Some (FAIL, w4)"
    by (auto simp: e2)
  have r5: "flash_bootloader (board\<lparr>romfs_bootloader := None\<rparr>) blank
              = Some (NOT_AVAILABLE, Debug FailedToFind (expect_delay_ms 11000 blank))"
    by (simp add: flash_bootloader_not_available f(4))
  show ?thesis
    using image_released_once [OF r1] image_released_once [OF r2] image_released_once [OF r3]
      image_released_once [OF r4] image_released_once [OF r5] f
    by (simp add: r1 r2 r3 r4 r5)
qed

subsection \<open>C5: the unlock gate\<close>

text \<open>
  C5. In every run of \<^verbatim>\<open>flash_bootloader\<close> that returns, either the gate is not touched
  and no write is issued, or the events of the run are: a part without gate calls and
  writes, \<^verbatim>\<open>keep_unlocked(true)\<close>, a part with at least one write and no gate call,
  \<^verbatim>\<open>keep_unlocked(false)\<close>, and a part without gate calls and writes; in this case the
  flash is not left unlocked. So the gate is taken once, before the first write, held
  over all writes, and given back once, on the way out with \<open>OK\<close> and on the way out after
  the last failed attempt alike.
\<close>

theorem unlock_gate_scoped:
  assumes "flash_bootloader env w = Some (r, w')"
  shows "\<exists>new. trace w' = trace w @ new
           \<and> ((\<forall>e\<in>set new. \<not> is_gate e \<and> \<not> is_write e) \<and> unlocked w' = unlocked w
              \<or> (\<exists>pre mid post.
                    new = pre @ [EvKeepUnlocked True] @ mid @ [EvKeepUnlocked False] @ post
                  \<and> (\<forall>e\<in>set pre. \<not> is_gate e \<and> \<not> is_write e)
                  \<and> (\<forall>e\<in>set mid. \<not> is_gate e) \<and> (\<exists>e\<in>set mid. is_write e)
                  \<and> (\<forall>e\<in>set post. \<not> is_gate e \<and> \<not> is_write e)
                  \<and> \<not> unlocked w'))"
  using assms
proof (cases rule: flash_bootloader_cases)
  case not_available
  then show ?thesis
    by (intro exI [of _ "[EvExpectDelay 11000, EvDebug FailedToFind]"]) simp
next
  case (no_change fw sz)
  then show ?thesis
    by (intro exI [of _ "[EvExpectDelay 11000, EvDebug UpToDate, EvFree]"]) simp
next
  case (erase_failed fw sz)
  from erase_loop_extends [OF erase_failed(4)] obtain new where
    "trace w' = trace w @ [EvExpectDelay 11000, EvDebug Erasing] @ new"
    "\<forall>e\<in>set new. \<not> is_gate e \<and> \<not> is_write e" by auto
  moreover from erase_loop_effect [OF erase_failed(4)] have "unlocked w' = unlocked w"
    by simp
  ultimately show ?thesis
    by (intro exI [of _ "[EvExpectDelay 11000, EvDebug Erasing] @ new"]) simp
next
  case (written fw sz w2)
  from erase_loop_extends [OF written(3)] obtain new where
    n: "trace w2 = trace w @ [EvExpectDelay 11000, EvDebug Erasing] @ new"
    "\<forall>e\<in>set new. \<not> is_gate e \<and> \<not> is_write e" by auto
  let ?wp = "write_phase env (getpageaddr env 0) (read_ram fw (unat (align32 sz)))
               (snd (fst (uptodate_decision env fw (align32 sz) w))) w2"
  from write_phase_any [of env "getpageaddr env 0" "read_ram fw (unat (align32 sz))"
      "snd (fst (uptodate_decision env fw (align32 sz) w))" w2]
  obtain mid post where m: "trace (snd ?wp) = trace w2
        @ [EvDebug (Flashing (getpageaddr env 0)), EvKeepUnlocked True] @ mid
        @ [EvKeepUnlocked False] @ post"
    "\<forall>e\<in>set mid. \<not> is_gate e" "\<exists>e\<in>set mid. is_write e"
    "\<forall>e\<in>set post. \<not> is_gate e \<and> \<not> is_write e"
    "\<not> unlocked (snd ?wp)" by blast
  from written(4) have w': "w' = snd ?wp"
    by (simp add: prod_eq_iff)
  let ?pre = "[EvExpectDelay 11000, EvDebug Erasing] @ new
                @ [EvDebug (Flashing (getpageaddr env 0))]"
  have "trace w' = trace w @ ?pre @ [EvKeepUnlocked True] @ mid @ [EvKeepUnlocked False] @ post"
    using m(1) n(1) w' by simp
  moreover have "\<forall>e\<in>set ?pre. \<not> is_gate e \<and> \<not> is_write e"
    using n(2) by simp
  ultimately show ?thesis
    using m(2-5) w'
    by (intro exI [of _ "?pre @ [EvKeepUnlocked True] @ mid @ [EvKeepUnlocked False] @ post"])
       blast
qed

text \<open>The successful update of the board: both writes lie between the two gate calls.\<close>

theorem unlock_gate_scoped_witness:
  "\<exists>w'. flash_bootloader board blank = Some (OK, w')
      \<and> filter (\<lambda>e. is_gate e \<or> is_write e) (trace w')
          = [EvKeepUnlocked True, EvWrite 0x08000000 (read_ram demo_image 32) True,
             EvWrite 0x08000060 demo_params True, EvKeepUnlocked False]
      \<and> (\<exists>new. trace w' = trace blank @ new
           \<and> ((\<forall>e\<in>set new. \<not> is_gate e \<and> \<not> is_write e) \<and> unlocked w' = unlocked blank
              \<or> (\<exists>pre mid post.
                    new = pre @ [EvKeepUnlocked True] @ mid @ [EvKeepUnlocked False] @ post
                  \<and> (\<forall>e\<in>set pre. \<not> is_gate e \<and> \<not> is_write e)
                  \<and> (\<forall>e\<in>set mid. \<not> is_gate e) \<and> (\<exists>e\<in>set mid. is_write e)
                  \<and> (\<forall>e\<in>set post. \<not> is_gate e \<and> \<not> is_write e)
                  \<and> \<not> unlocked w')))"
proof -
  from board_run_ok [where j = 0 and wr = "\<lambda>n. True"]
  obtain w' where run: "flash_bootloader board blank = Some (OK, w')"
    and tr: "trace w' = [EvExpectDelay 11000, EvDebug Erasing, EvExpectDelay 1000,
                          EvErase 0 True, EvDebug (Flashing 0x08000000), EvKeepUnlocked True]
                @ failed_attempts 0x08000000 (read_ram demo_image 32) 0 0
                @ [EvExpectDelay 1000, EvWrite 0x08000000 (read_ram demo_image 32) True,
                   EvDebug FlashOK, EvWrite 0x08000060 demo_params True,
                   EvKeepUnlocked False, EvFree]"
    by (auto simp: board_same max_attempts_def)
  from tr have "filter (\<lambda>e. is_gate e \<or> is_write e) (trace w')
          = [EvKeepUnlocked True, EvWrite 0x08000000 (read_ram demo_image 32) True,
             EvWrite 0x08000060 demo_params True, EvKeepUnlocked False]"
    by simp
  with run unlock_gate_scoped [OF run] show ?thesis
    by (intro exI [of _ w']) simp
qed

subsection \<open>C3: ten write attempts\<close>

text \<open>
  C3. Take a run that finds the image, decides to update and gets through the erase
  phase after n pages. Whatever the device does, the write phase makes j failed attempts
  for some j up to 10, each of them the write of the aligned image to the base of page 0
  followed by the message and a \<^verbatim>\<open>delay(100)\<close>; if j is below 10 the next attempt succeeds
  and the result is \<open>OK\<close>, and if j is 10 there is no further attempt and the result is
  \<open>FAIL\<close>. In particular a device that fails the first 9 write calls and passes the 10th
  gives \<open>OK\<close>, and a device that fails the first 10 write calls gives \<open>FAIL\<close>.
\<close>

theorem write_retry_bound:
  assumes found: "romfs_bootloader env = Some (fw, sz)"
    and needs: "\<not> fst (fst (uptodate_decision env fw (align32 sz) w))"
    and fresh: "trace w = []"
    and passes: "erase_passes env (align32 sz) n"
    and covered: "\<not> erased_size_after env n < align32 sz"
  defines "a \<equiv> getpageaddr env 0"
    and "d \<equiv> read_ram fw (unat (align32 sz))"
    and "pre \<equiv> [EvExpectDelay 11000, EvDebug Erasing] @ erase_events n
                 @ [EvDebug (Flashing (getpageaddr env 0)), EvKeepUnlocked True]"
    and "pp \<equiv> snd (get_persistent_params env es_new)"
  shows "(\<exists>j w'. j \<le> 10
            \<and> flash_bootloader env w = Some (if j < 10 then OK else FAIL, w')
            \<and> trace w' = pre @ failed_attempts a d 0 j
                 @ (if j < 10
                    then [EvExpectDelay 1000, EvWrite a d True, EvDebug FlashOK]
                           @ params_write env a pp (write_result env (j + 1))
                           @ [EvKeepUnlocked False, EvFree]
                    else [EvKeepUnlocked False, EvDebug (FlashFailedAfter 10), EvFree]))
       \<and> ((\<forall>k<9. \<not> write_result env k) \<and> write_result env 9 \<longrightarrow>
            (\<exists>w'. flash_bootloader env w = Some (OK, w')
               \<and> trace w' = pre @ failed_attempts a d 0 9
                    @ [EvExpectDelay 1000, EvWrite a d True, EvDebug FlashOK]
                    @ params_write env a pp (write_result env 10)
                    @ [EvKeepUnlocked False, EvFree]))
       \<and> ((\<forall>k<10. \<not> write_result env k) \<longrightarrow>
            (\<exists>w'. flash_bootloader env w = Some (FAIL, w')
               \<and> trace w' = pre @ failed_attempts a d 0 10
                    @ [EvKeepUnlocked False, EvDebug (FlashFailedAfter 10), EvFree]))"
proof -
  have ok: "\<exists>w'. flash_bootloader env w = Some (OK, w')
               \<and> trace w' = pre @ failed_attempts a d 0 j
                    @ [EvExpectDelay 1000, EvWrite a d True, EvDebug FlashOK]
                    @ params_write env a pp (write_result env (j + 1))
                    @ [EvKeepUnlocked False, EvFree]"
    if "j < max_attempts" "\<forall>k<j. \<not> write_result env k" "write_result env j" for j
    using flash_bootloader_run_ok [OF found needs fresh passes covered that]
    by (auto simp: a_def d_def pre_def pp_def)
  have bad: "\<exists>w'. flash_bootloader env w = Some (FAIL, w')
               \<and> trace w' = pre @ failed_attempts a d 0 10
                    @ [EvKeepUnlocked False, EvDebug (FlashFailedAfter 10), EvFree]"
    if "\<forall>k<max_attempts. \<not> write_result env k"
    using flash_bootloader_run_write_fail [OF found needs fresh passes covered that]
    by (auto simp: a_def d_def pre_def max_attempts_def)
  have general: "\<exists>j w'. j \<le> 10
            \<and> flash_bootloader env w = Some (if j < 10 then OK else FAIL, w')
            \<and> trace w' = pre @ failed_attempts a d 0 j
                 @ (if j < 10
                    then [EvExpectDelay 1000, EvWrite a d True, EvDebug FlashOK]
                           @ params_write env a pp (write_result env (j + 1))
                           @ [EvKeepUnlocked False, EvFree]
                    else [EvKeepUnlocked False, EvDebug (FlashFailedAfter 10), EvFree])"
    using first_success_or_none [of max_attempts "write_result env"]
  proof
    assume "\<exists>j<max_attempts. (\<forall>k<j. \<not> write_result env k) \<and> write_result env j"
    then obtain j where j: "j < max_attempts" "\<forall>k<j. \<not> write_result env k" "write_result env j"
      by blast
    from ok [OF j] j(1) show ?thesis
      by (auto simp: max_attempts_def intro!: exI [of _ j])
  next
    assume "\<forall>k<max_attempts. \<not> write_result env k"
    from bad [OF this] show ?thesis
      by (auto intro!: exI [of _ 10])
  qed
  from ok [of 9] have nine: "(\<forall>k<9. \<not> write_result env k) \<and> write_result env 9 \<longrightarrow>
            (\<exists>w'. flash_bootloader env w = Some (OK, w')
               \<and> trace w' = pre @ failed_attempts a d 0 9
                    @ [EvExpectDelay 1000, EvWrite a d True, EvDebug FlashOK]
                    @ params_write env a pp (write_result env 10)
                    @ [EvKeepUnlocked False, EvFree])"
    by (simp add: max_attempts_def)
  from bad have ten: "(\<forall>k<10. \<not> write_result env k) \<longrightarrow>
            (\<exists>w'. flash_bootloader env w = Some (FAIL, w')
               \<and> trace w' = pre @ failed_attempts a d 0 10
                    @ [EvKeepUnlocked False, EvDebug (FlashFailedAfter 10), EvFree])"
    by (simp add: max_attempts_def)
  from general nine ten show ?thesis by blast
qed

text \<open>
  The two devices of the claim on the board: the writes of each run, and its number
  of delays of 100 ms.
\<close>

theorem write_retry_bound_witness:
  "outcome (flash_bootloader (board\<lparr>write_result := (\<lambda>n. 9 \<le> n)\<rparr>) blank) = Some OK
   \<and> filter is_write (final_trace (flash_bootloader (board\<lparr>write_result := (\<lambda>n. 9 \<le> n)\<rparr>) blank))
       = replicate 9 (EvWrite 0x08000000 (read_ram demo_image 32) False)
         @ [EvWrite 0x08000000 (read_ram demo_image 32) True,
            EvWrite 0x08000060 demo_params True]
   \<and> length (filter (\<lambda>e. e = EvDelay 100)
        (final_trace (flash_bootloader (board\<lparr>write_result := (\<lambda>n. 9 \<le> n)\<rparr>) blank))) = 9
   \<and> outcome (flash_bootloader (board\<lparr>write_result := (\<lambda>n. False)\<rparr>) blank) = Some FAIL
   \<and> filter is_write (final_trace (flash_bootloader (board\<lparr>write_result := (\<lambda>n. False)\<rparr>) blank))
       = replicate 10 (EvWrite 0x08000000 (read_ram demo_image 32) False)
   \<and> length (filter (\<lambda>e. e = EvDelay 100)
        (final_trace (flash_bootloader (board\<lparr>write_result := (\<lambda>n. False)\<rparr>) blank))) = 10"
proof -
  have delays: "length (filter (\<lambda>e. e = EvDelay 100) (failed_attempts a d 0 j)) = j" for a d j
    by (induction j) (simp_all add: failed_attempts_Suc)
  have a: "getpageaddr (board\<lparr>write_result := wr\<rparr>) 0 = 0x08000000"
    "getpageaddr board 0 = 0x08000000" for wr
    by (simp_all add: board_def)
  let ?b9 = "board\<lparr>write_result := (\<lambda>n. 9 \<le> n)\<rparr>"
  let ?b10 = "board\<lparr>write_result := (\<lambda>n. False)\<rparr>"
  have "(\<forall>k<9. \<not> write_result ?b9 k) \<and> write_result ?b9 9" by simp
  with write_retry_bound [OF board_blank_facts, of "\<lambda>n. 9 \<le> n"]
  obtain w9 where r9: "flash_bootloader ?b9 blank = Some (OK, w9)"
    and t9: "trace w9 = ([EvExpectDelay 11000, EvDebug Erasing] @ erase_events (Suc 0)
                 @ [EvDebug (Flashing (getpageaddr ?b9 0)), EvKeepUnlocked True])
               @ failed_attempts (getpageaddr ?b9 0) (read_ram demo_image (unat (align32 32))) 0 9
               @ [EvExpectDelay 1000,
                  EvWrite (getpageaddr ?b9 0) (read_ram demo_image (unat (align32 32))) True,
                  EvDebug FlashOK]
               @ params_write ?b9 (getpageaddr ?b9 0) (snd (get_persistent_params ?b9 es_new))
                   (write_result ?b9 10)
               @ [EvKeepUnlocked False, EvFree]"
    by blast
  have "\<forall>k<10. \<not> write_result ?b10 k" by simp
  with write_retry_bound [OF board_blank_facts, of "\<lambda>n. False"]
  obtain w10 where r10: "flash_bootloader ?b10 blank = Some (FAIL, w10)"
    and t10: "trace w10 = ([EvExpectDelay 11000, EvDebug Erasing] @ erase_events (Suc 0)
                 @ [EvDebug (Flashing (getpageaddr ?b10 0)), EvKeepUnlocked True])
               @ failed_attempts (getpageaddr ?b10 0) (read_ram demo_image (unat (align32 32))) 0 10
               @ [EvKeepUnlocked False, EvDebug (FlashFailedAfter 10), EvFree]"
    by blast
  show ?thesis
    by (simp add: r9 r10 t9 t10 a delays board_params_write erase_events_Suc)
qed

subsection \<open>C10: the result of the parameter write\<close>

text \<open>
  C10. Take a run that finds the image, decides to update, gets through the erase phase,
  and whose first successful write of the image is attempt j + 1, with parameters to
  write. The run returns \<open>OK\<close>, whatever the device answers to the write of the
  parameters that follows: that answer, \<open>write_result env (j + 1)\<close>, is recorded in the
  trace and is no part of the result.
\<close>

theorem params_write_result_dropped:
  assumes found: "romfs_bootloader env = Some (fw, sz)"
    and needs: "\<not> fst (fst (uptodate_decision env fw (align32 sz) w))"
    and fresh: "trace w = []"
    and passes: "erase_passes env (align32 sz) n"
    and covered: "\<not> erased_size_after env n < align32 sz"
    and first: "j < max_attempts" "\<forall>k<j. \<not> write_result env k" "write_result env j"
    and blob: "HAL_ENABLE_SAVE_PERSISTENT_PARAMS env"
      "get_length (snd (get_persistent_params env es_new)) \<noteq> 0"
  shows "\<exists>w'. flash_bootloader env w = Some (OK, w')
           \<and> filter is_write (trace w')
               = replicate j (EvWrite (getpageaddr env 0) (read_ram fw (unat (align32 sz))) False)
                 @ [EvWrite (getpageaddr env 0) (read_ram fw (unat (align32 sz))) True,
                    EvWrite (getpageaddr env 0 + (getpagesize env 0
                               - of_nat (get_length (snd (get_persistent_params env es_new)))))
                      (buf (snd (get_persistent_params env es_new)))
                      (write_result env (j + 1))]"
proof -
  from flash_bootloader_run_ok [OF found needs fresh passes covered first]
  obtain w' where "flash_bootloader env w = Some (OK, w')"
    and "trace w' = [EvExpectDelay 11000, EvDebug Erasing] @ erase_events n
                @ [EvDebug (Flashing (getpageaddr env 0)), EvKeepUnlocked True]
                @ failed_attempts (getpageaddr env 0) (read_ram fw (unat (align32 sz))) 0 j
                @ [EvExpectDelay 1000,
                   EvWrite (getpageaddr env 0) (read_ram fw (unat (align32 sz))) True,
                   EvDebug FlashOK]
                @ params_write env (getpageaddr env 0) (snd (get_persistent_params env es_new))
                    (write_result env (j + 1))
                @ [EvKeepUnlocked False, EvFree]"
    by blast
  then show ?thesis
    using blob by (intro exI [of _ w']) (simp add: params_write_def)
qed

text \<open>The board with a device on which only the first write call succeeds.\<close>

theorem params_write_result_dropped_witness:
  "HAL_ENABLE_SAVE_PERSISTENT_PARAMS (board\<lparr>write_result := (\<lambda>n. n = 0)\<rparr>)
   \<and> get_length (snd (get_persistent_params (board\<lparr>write_result := (\<lambda>n. n = 0)\<rparr>) es_new)) = 32
   \<and> outcome (flash_bootloader (board\<lparr>write_result := (\<lambda>n. n = 0)\<rparr>) blank) = Some OK
   \<and> filter is_write (final_trace (flash_bootloader (board\<lparr>write_result := (\<lambda>n. n = 0)\<rparr>) blank))
       = [EvWrite 0x08000000 (read_ram demo_image 32) True,
          EvWrite 0x08000060 demo_params False]"
proof -
  let ?b = "board\<lparr>write_result := (\<lambda>n. n = 0)\<rparr>"
  have p: "get_persistent_params ?b es_new
             = (True, \<lparr>buf = demo_params, allocation_failed = False\<rparr>)"
    using board_params [where er = "\<lambda>n. True" and wr = "\<lambda>n. n = 0"]
    by (simp add: board_write_only)
  have blob: "HAL_ENABLE_SAVE_PERSISTENT_PARAMS ?b"
    "get_length (snd (get_persistent_params ?b es_new)) \<noteq> 0"
    and len: "get_length (snd (get_persistent_params ?b es_new)) = 32"
    by (simp_all add: p get_length_def demo_params_def persistent_header_def) (simp add: board_def)
  have first: "0 < max_attempts" "\<forall>k<0. \<not> write_result ?b k" "write_result ?b 0"
    by (simp_all add: max_attempts_def)
  have a: "getpageaddr board 0 = 0x08000000" "getpagesize board 0 = 128"
    by (simp_all add: board_def)
  from params_write_result_dropped [OF board_blank_facts first blob]
  obtain w' where "flash_bootloader ?b blank = Some (OK, w')"
    and "filter is_write (trace w')
               = replicate 0 (EvWrite (getpageaddr ?b 0) (read_ram demo_image (unat (align32 32))) False)
                 @ [EvWrite (getpageaddr ?b 0) (read_ram demo_image (unat (align32 32))) True,
                    EvWrite (getpageaddr ?b 0 + (getpagesize ?b 0
                               - of_nat (get_length (snd (get_persistent_params ?b es_new)))))
                      (buf (snd (get_persistent_params ?b es_new)))
                      (write_result ?b (0 + 1))]"
    by blast
  then show ?thesis
    using blob(1) len by (simp add: p a)
qed

subsection \<open>C4: where the parameters are written\<close>

text \<open>
  C4, as stated, has the parameters written immediately after the aligned image, at the
  offset \<open>aligned_size\<close>. On the board the image takes 32 of the 128 bytes of page 0 and
  the parameters are 32 bytes long: they are written at 0x08000060, the offset 96, and
  no write goes to 0x08000020.
\<close>

theorem params_written_after_image_counterexample:
  "outcome (flash_bootloader board blank) = Some OK
   \<and> filter is_write (final_trace (flash_bootloader board blank))
       = [EvWrite 0x08000000 (read_ram demo_image 32) True,
          EvWrite 0x08000060 demo_params True]
   \<and> getpageaddr board 0 + align32 32 = 0x08000020
   \<and> (0x08000060 :: u32) \<noteq> getpageaddr board 0 + align32 32"
proof -
  from board_run_ok [where j = 0 and wr = "\<lambda>n. True"]
  obtain w' where "flash_bootloader board blank = Some (OK, w')"
    and "trace w' = [EvExpectDelay 11000, EvDebug Erasing, EvExpectDelay 1000,
                          EvErase 0 True, EvDebug (Flashing 0x08000000), EvKeepUnlocked True]
                @ failed_attempts 0x08000000 (read_ram demo_image 32) 0 0
                @ [EvExpectDelay 1000, EvWrite 0x08000000 (read_ram demo_image 32) True,
                   EvDebug FlashOK, EvWrite 0x08000060 demo_params True,
                   EvKeepUnlocked False, EvFree]"
    by (auto simp: board_same max_attempts_def)
  then show ?thesis
    by (simp add: board_def)
qed

text \<open>
  C4, amended. When the write of the image succeeds and the parameter string is not
  empty, the next call to the driver writes the string at the offset
  \<open>page_size(0) - length\<close> from the base of page 0, so that it ends where page 0 ends;
  the string begins with the header.
\<close>

theorem params_written_at_page_end:
  assumes found: "romfs_bootloader env = Some (fw, sz)"
    and needs: "\<not> fst (fst (uptodate_decision env fw (align32 sz) w))"
    and fresh: "trace w = []"
    and passes: "erase_passes env (align32 sz) n"
    and covered: "\<not> erased_size_after env n < align32 sz"
    and first: "j < max_attempts" "\<forall>k<j. \<not> write_result env k" "write_result env j"
    and blob: "HAL_ENABLE_SAVE_PERSISTENT_PARAMS env"
      "get_length (snd (get_persistent_params env es_new)) \<noteq> 0"
  defines "pp \<equiv> snd (get_persistent_params env es_new)"
    and "ofs \<equiv> getpagesize env 0 - of_nat (get_length (snd (get_persistent_params env es_new)))"
  shows "\<exists>w' before. flash_bootloader env w = Some (OK, w')
           \<and> trace w' = before
               @ [EvWrite (getpageaddr env 0) (read_ram fw (unat (align32 sz))) True,
                  EvDebug FlashOK,
                  EvWrite (getpageaddr env 0 + ofs) (buf pp) (write_result env (j + 1)),
                  EvKeepUnlocked False, EvFree]
           \<and> ofs + of_nat (length (buf pp)) = getpagesize env 0
           \<and> prefix persistent_header (buf pp)"
proof -
  from flash_bootloader_run_ok [OF found needs fresh passes covered first]
  obtain w' where run: "flash_bootloader env w = Some (OK, w')"
    and tr: "trace w' = [EvExpectDelay 11000, EvDebug Erasing] @ erase_events n
                @ [EvDebug (Flashing (getpageaddr env 0)), EvKeepUnlocked True]
                @ failed_attempts (getpageaddr env 0) (read_ram fw (unat (align32 sz))) 0 j
                @ [EvExpectDelay 1000,
                   EvWrite (getpageaddr env 0) (read_ram fw (unat (align32 sz))) True,
                   EvDebug FlashOK]
                @ params_write env (getpageaddr env 0) (snd (get_persistent_params env es_new))
                    (write_result env (j + 1))
                @ [EvKeepUnlocked False, EvFree]"
    by blast
  let ?before = "[EvExpectDelay 11000, EvDebug Erasing] @ erase_events n
                @ [EvDebug (Flashing (getpageaddr env 0)), EvKeepUnlocked True]
                @ failed_attempts (getpageaddr env 0) (read_ram fw (unat (align32 sz))) 0 j
                @ [EvExpectDelay 1000]"
  have "trace w' = ?before
               @ [EvWrite (getpageaddr env 0) (read_ram fw (unat (align32 sz))) True,
                  EvDebug FlashOK,
                  EvWrite (getpageaddr env 0 + ofs) (buf pp) (write_result env (j + 1)),
                  EvKeepUnlocked False, EvFree]"
    using tr blob by (simp add: params_write_def pp_def ofs_def)
  moreover have "ofs + of_nat (length (buf pp)) = getpagesize env 0"
    by (simp add: ofs_def pp_def get_length_def)
  moreover have "prefix persistent_header (buf pp)"
    unfolding pp_def using blob(2) by (rule serialized_header)
  ultimately show ?thesis
    using run by blast
qed

text \<open>On the board: the last three events of the run.\<close>

theorem params_written_at_page_end_witness:
  "HAL_ENABLE_SAVE_PERSISTENT_PARAMS board
   \<and> get_length (snd (get_persistent_params board es_new)) = 32
   \<and> outcome (flash_bootloader board blank) = Some OK
   \<and> drop 9 (final_trace (flash_bootloader board blank))
       = [EvWrite (0x08000000 + (128 - 32)) demo_params True, EvKeepUnlocked False, EvFree]
   \<and> prefix persistent_header demo_params"
proof -
  have p: "get_persistent_params board es_new
             = (True, \<lparr>buf = demo_params, allocation_failed = False\<rparr>)"
    using board_params [where er = "\<lambda>n. True" and wr = "\<lambda>n. True"] by (simp add: board_same)
  have blob: "HAL_ENABLE_SAVE_PERSISTENT_PARAMS board"
    "get_length (snd (get_persistent_params board es_new)) \<noteq> 0"
    and len: "get_length (snd (get_persistent_params board es_new)) = 32"
    by (simp_all add: p get_length_def demo_params_def persistent_header_def) (simp add: board_def)
  have first: "0 < max_attempts" "\<forall>k<0. \<not> write_result board k" "write_result board 0"
    by (simp_all add: max_attempts_def board_def)
  have b: "board\<lparr>write_result := (\<lambda>n. True)\<rparr> = board"
    by (simp add: board_def)
  have facts: "romfs_bootloader board = Some (demo_image, 32)"
    "\<not> fst (fst (uptodate_decision board demo_image (align32 32) blank))"
    "trace blank = []"
    "erase_passes board (align32 32) (Suc 0)"
    "\<not> erased_size_after board (Suc 0) < align32 32"
    using board_blank_facts(1,2,4,5) [where wr = "\<lambda>n. True"] board_blank_facts(3)
    by (simp_all add: b)
  have a: "getpageaddr board 0 = 0x08000000" "getpagesize board 0 = 128"
    by (simp_all add: board_def)
  from params_written_at_page_end [OF facts first blob]
  obtain w' before where run: "flash_bootloader board blank = Some (OK, w')"
    and tr: "trace w' = before
               @ [EvWrite (getpageaddr board 0) (read_ram demo_image (unat (align32 32))) True,
                  EvDebug FlashOK,
                  EvWrite (getpageaddr board 0 + (getpagesize board 0
                      - of_nat (get_length (snd (get_persistent_params board es_new)))))
                    (buf (snd (get_persistent_params board es_new))) (write_result board (0 + 1)),
                  EvKeepUnlocked False, EvFree]"
    and pre: "prefix persistent_header (buf (snd (get_persistent_params board es_new)))"
    by blast
  from board_run_ok [where j = 0 and wr = "\<lambda>n. True"] run
  have full: "trace w' = [EvExpectDelay 11000, EvDebug Erasing, EvExpectDelay 1000,
                          EvErase 0 True, EvDebug (Flashing 0x08000000), EvKeepUnlocked True]
                @ failed_attempts 0x08000000 (read_ram demo_image 32) 0 0
                @ [EvExpectDelay 1000, EvWrite 0x08000000 (read_ram demo_image 32) True,
                   EvDebug FlashOK, EvWrite 0x08000060 demo_params True,
                   EvKeepUnlocked False, EvFree]"
    by (auto simp: board_same max_attempts_def)
  show ?thesis
    using blob(1) len pre run by (simp add: full p)
qed

subsection \<open>C6: the erase phase\<close>

text \<open>
  C6. Take a run that finds the image and decides to update, on a device whose first n
  passes of the erase loop go through: the pages 0 to n - 1 are erased, in this order,
  and before each of them the accumulated size is still below \<open>aligned_size\<close>. If the
  accumulated size is still below \<open>aligned_size\<close> and page n reports the size 0, or its
  erase call fails, the function returns \<open>FAIL\<close> at once: page n is not tried again, no
  further page is erased and no write call is issued. If the accumulated size has
  reached \<open>aligned_size\<close>, no further page is erased and the run goes on to write.
\<close>

theorem erase_phase_fatal:
  assumes found: "romfs_bootloader env = Some (fw, sz)"
    and needs: "\<not> fst (fst (uptodate_decision env fw (align32 sz) w))"
    and fresh: "trace w = []"
    and passes: "erase_passes env (align32 sz) n"
  shows "(erased_size_after env n < align32 sz
            \<and> (getpagesize env (of_nat n) = 0 \<or> \<not> erase_result env n) \<longrightarrow>
          (\<exists>w'. flash_bootloader env w = Some (FAIL, w')
             \<and> trace w' = [EvExpectDelay 11000, EvDebug Erasing] @ erase_events n
                  @ erase_failure env n
             \<and> write_calls (trace w') = 0))
       \<and> (\<not> erased_size_after env n < align32 sz \<longrightarrow>
          (\<exists>r w' rest. flash_bootloader env w = Some (r, w')
             \<and> trace w' = [EvExpectDelay 11000, EvDebug Erasing] @ erase_events n @ rest
             \<and> erase_calls rest = 0 \<and> 0 < write_calls rest))"
proof (intro conjI impI)
  assume "erased_size_after env n < align32 sz
            \<and> (getpagesize env (of_nat n) = 0 \<or> \<not> erase_result env n)"
  then have short: "erased_size_after env n < align32 sz"
    and bad: "getpagesize env (of_nat n) = 0 \<or> \<not> erase_result env n" by simp_all
  from flash_bootloader_run_erase_fail [OF found needs fresh passes short bad]
  obtain w' where "flash_bootloader env w = Some (FAIL, w')"
    and "trace w' = [EvExpectDelay 11000, EvDebug Erasing] @ erase_events n
                  @ erase_failure env n" by blast
  then show "\<exists>w'. flash_bootloader env w = Some (FAIL, w')
             \<and> trace w' = [EvExpectDelay 11000, EvDebug Erasing] @ erase_events n
                  @ erase_failure env n
             \<and> write_calls (trace w') = 0"
    by (intro exI [of _ w']) simp
next
  assume covered: "\<not> erased_size_after env n < align32 sz"
  let ?pp = "snd (fst (uptodate_decision env fw (align32 sz) w))"
  let ?a = "getpageaddr env 0"
  let ?d = "read_ram fw (unat (align32 sz))"
  from flash_bootloader_erased [OF found needs fresh passes covered]
  obtain w2 where run: "flash_bootloader env w = Some (write_phase env ?a ?d ?pp w2)"
    and tr: "trace w2 = [EvExpectDelay 11000, EvDebug Erasing] @ erase_events n" by blast
  from write_phase_any [of env ?a ?d ?pp w2]
  obtain mid post where m: "trace (snd (write_phase env ?a ?d ?pp w2))
        = trace w2 @ [EvDebug (Flashing ?a), EvKeepUnlocked True] @ mid
            @ [EvKeepUnlocked False] @ post"
    and w: "\<exists>e\<in>set mid. is_write e"
    and e: "erase_calls mid = 0" "erase_calls post = 0" by blast
  from w have "filter is_write mid \<noteq> []"
    by (simp add: filter_empty_conv)
  then have "0 < write_calls mid"
    by (simp add: write_calls_def)
  with run m tr e show "\<exists>r w' rest. flash_bootloader env w = Some (r, w')
             \<and> trace w' = [EvExpectDelay 11000, EvDebug Erasing] @ erase_events n @ rest
             \<and> erase_calls rest = 0 \<and> 0 < write_calls rest"
    by (intro exI [of _ "fst (write_phase env ?a ?d ?pp w2)"]
          exI [of _ "snd (write_phase env ?a ?d ?pp w2)"]
          exI [of _ "[EvDebug (Flashing ?a), EvKeepUnlocked True] @ mid
            @ [EvKeepUnlocked False] @ post"]) simp
qed

text \<open>
  A device that fails the first erase call; a page table that ends before the image is
  covered; the board as it is.
\<close>

theorem erase_phase_fatal_witness:
  "outcome (flash_bootloader (board\<lparr>erase_result := (\<lambda>n. False)\<rparr>) blank) = Some FAIL
   \<and> final_trace (flash_bootloader (board\<lparr>erase_result := (\<lambda>n. False)\<rparr>) blank)
       = [EvExpectDelay 11000, EvDebug Erasing, EvExpectDelay 1000, EvErase 0 False,
          EvDebug (EraseFailed 0), EvFree]
   \<and> outcome (flash_bootloader small_page blank) = Some FAIL
   \<and> final_trace (flash_bootloader small_page blank)
       = [EvExpectDelay 11000, EvDebug Erasing, EvExpectDelay 1000, EvErase 0 True, EvFree]
   \<and> outcome (flash_bootloader board blank) = Some OK
   \<and> filter is_erase (final_trace (flash_bootloader board blank)) = [EvErase 0 True]"
proof -
  let ?b1 = "board\<lparr>erase_result := (\<lambda>n. False)\<rparr>"
  have f1: "romfs_bootloader ?b1 = Some (demo_image, 32)"
    "\<not> fst (fst (uptodate_decision ?b1 demo_image (align32 32) blank))"
    "trace blank = []" "erase_passes ?b1 (align32 32) 0"
    using board_blank_needs_update [where er = "\<lambda>n. False" and wr = "\<lambda>n. True"]
    by (simp_all add: board_def blank_def)
  have h1: "erased_size_after ?b1 0 < align32 32
            \<and> (getpagesize ?b1 (of_nat 0) = 0 \<or> \<not> erase_result ?b1 0)"
    by simp
  from erase_phase_fatal [OF f1] h1
  obtain w1 where r1: "flash_bootloader ?b1 blank = Some (FAIL, w1)"
    and t1: "trace w1 = [EvExpectDelay 11000, EvDebug Erasing] @ erase_events 0
                  @ erase_failure ?b1 0" by blast
  have p: "get_persistent_params small_page es_new
             = (True, \<lparr>buf = demo_params, allocation_failed = False\<rparr>)"
    by (simp add: small_page_def eval_params demo_params_def)
  have "\<not> fst (fst (uptodate_decision small_page demo_image 32 blank))"
    by (simp add: uptodate_decision_def Let_def p)
       (simp add: small_page_def board_def blank_def read_ram_def read_flash_def demo_image_def
          upt_numeral)
  then have f2: "romfs_bootloader small_page = Some (demo_image, 32)"
    "\<not> fst (fst (uptodate_decision small_page demo_image (align32 32) blank))"
    "trace blank = []" "erase_passes small_page (align32 32) (Suc 0)"
    by (simp_all add: small_page_def board_def blank_def)
  have h2: "erased_size_after small_page (Suc 0) < align32 32
            \<and> (getpagesize small_page (of_nat (Suc 0)) = 0 \<or> \<not> erase_result small_page (Suc 0))"
    by (simp add: small_page_def board_def)
  from erase_phase_fatal [OF f2] h2
  obtain w2 where r2: "flash_bootloader small_page blank = Some (FAIL, w2)"
    and t2: "trace w2 = [EvExpectDelay 11000, EvDebug Erasing] @ erase_events (Suc 0)
                  @ erase_failure small_page (Suc 0)" by blast
  have b: "board\<lparr>write_result := (\<lambda>n. True)\<rparr> = board"
    by (simp add: board_def)
  have f3: "romfs_bootloader board = Some (demo_image, 32)"
    "\<not> fst (fst (uptodate_decision board demo_image (align32 32) blank))"
    "trace blank = []"
    "erase_passes board (align32 32) (Suc 0)"
    using board_blank_facts(1,2,4) [where wr = "\<lambda>n. True"] board_blank_facts(3)
    by (simp_all add: b)
  have h3: "\<not> erased_size_after board (Suc 0) < align32 32"
    using board_blank_facts(5) [where wr = "\<lambda>n. True"] by (simp add: b)
  from erase_phase_fatal [OF f3] h3
  obtain r3 w3 rest where r3: "flash_bootloader board blank = Some (r3, w3)"
    and t3: "trace w3 = [EvExpectDelay 11000, EvDebug Erasing] @ erase_events (Suc 0) @ rest"
    and e3: "erase_calls rest = 0" by blast
  from e3 have "filter is_erase rest = []"
    by (simp add: erase_calls_def)
  moreover from board_run_ok [where j = 0 and wr = "\<lambda>n. True"] r3 have "r3 = OK"
    by (auto simp: board_same max_attempts_def)
  ultimately show ?thesis
    by (simp add: r1 t1 r2 t2 r3 t3 erase_events_Suc erase_failure_def)
       (simp add: small_page_def board_def)
qed

subsection \<open>C8: apply\_persistent\_params sets defaults only\<close>

text \<open>
  C8. Whatever the flash holds, \<^verbatim>\<open>apply_persistent_params\<close> leaves the explicitly set
  values of the store as they are: a name that has an explicit value keeps it, reads
  as before, and does not even get a new default, so a pair from the blob is set only
  for a name without an explicit value. A record without an equals sign leaves the store
  and the count as they are, and the records of a blob can be applied with or without
  such records to the same effect. The function is total: there is no error to report.
\<close>

theorem apply_never_overrides:
  fixes st :: "'v param_store" and env :: env and atof :: "u8 list \<Rightarrow> 'v" and w :: world
  defines "st' \<equiv> fst (apply_persistent_params env atof w st)"
  shows "explicit_value st' = explicit_value st
       \<and> (\<forall>name v. explicit_value st name = Some v \<longrightarrow>
            param_value st' name = Some v \<and> default_value st' name = default_value st name)
       \<and> (\<forall>sc p. 61 \<notin> set p \<longrightarrow> apply_record atof sc p = sc)
       \<and> (\<forall>sc ps. foldl (apply_record atof) sc ps
            = foldl (apply_record atof) sc (filter (\<lambda>p. 61 \<in> set p) ps))"
proof -
  let ?l = "load_persistent_params env w es_new"
  let ?s = "drop (length persistent_header) (c_str (buf (snd ?l)))"
  let ?r = "foldl (apply_record atof) (st, 0) (strtok_r [] ?s)"
  have cases: "st' = st \<or> st' = fst ?r \<or> st' = invalidate_count (fst ?r)"
    by (simp add: st'_def apply_persistent_params_def Let_def)
  have e: "explicit_value st' = explicit_value st"
    using cases by (auto simp: invalidate_count_def)
  have d: "default_value st' name = default_value st name"
    if "explicit_value st name = Some v" for name v
  proof -
    have "default_value (fst ?r) name = default_value st name"
      using apply_records_keep_default [of "(st, 0)" name v atof] that by simp
    with cases show ?thesis by (auto simp: invalidate_count_def)
  qed
  have "param_value st' name = Some v \<and> default_value st' name = default_value st name"
    if "explicit_value st name = Some v" for name v
    using that e d [OF that] by (simp add: param_value_def)
  with e show ?thesis
    using apply_record_skips [of _ atof] apply_records_skip [of atof] by blast
qed

text \<open>
  The flash of the board holds the record X=1 and the padding, a record of four spaces.
  With X set by the user nothing changes; on the empty store X gets the default 1.
\<close>

theorem apply_never_overrides_witness:
  "explicit_value demo_store [88] = Some [57]
   \<and> param_value (fst (apply_persistent_params board (\<lambda>s. s) flashed demo_store)) [88] = Some [57]
   \<and> apply_persistent_params board (\<lambda>s. s) flashed demo_store = (demo_store, [])
   \<and> apply_persistent_params board (\<lambda>s. s) flashed empty_store
       = (\<lparr>explicit_value = Map.empty, default_value = [[88] \<mapsto> [49]], count_valid = False\<rparr>,
          [LoadedPersistentParameters 1])
   \<and> 61 \<notin> set [32, 32, 32, 32 :: u8]
   \<and> apply_record (\<lambda>s. s) (demo_store, 0) [32, 32, 32, 32] = (demo_store, 0)"
proof -
  have x: "explicit_value demo_store [88] = Some [57]"
    by (simp add: demo_store_def)
  have sp: "61 \<notin> set [32, 32, 32, 32 :: u8]"
    by simp
  have a1: "apply_persistent_params board (\<lambda>s. s) flashed demo_store = (demo_store, [])"
    by (simp add: apply_persistent_params_def Let_def flashed_load flashed_tokens
        apply_record_def set_default_by_name_def demo_store_def)
  have a2: "apply_persistent_params board (\<lambda>s. s) flashed empty_store
       = (\<lparr>explicit_value = Map.empty, default_value = [[88] \<mapsto> [49]], count_valid = False\<rparr>,
          [LoadedPersistentParameters 1])"
    by (simp add: apply_persistent_params_def Let_def flashed_load flashed_tokens
        apply_record_def set_default_by_name_def empty_store_def invalidate_count_def)
  from apply_never_overrides [of board "\<lambda>s. s" flashed demo_store] x sp
  have "param_value (fst (apply_persistent_params board (\<lambda>s. s) flashed demo_store)) [88] = Some [57]"
    and "apply_record (\<lambda>s. s) (demo_store, 0) [32, 32, 32, 32] = (demo_store, 0)"
    by blast+
  with x sp a1 a2 show ?thesis by simp
qed

end
